theory Spec2Isabelle
  imports Main "HOL-Library.Word" "HOL-Library.Char_ord" "HOL-Library.List_Lexorder"
    "HOL-Library.Multiset"
begin

section \<open>Chain data read by message extraction\<close>

text \<open>
  The types of lotus that \<^verbatim>\<open>lens/util/repo.go\<close> and the multisig approvals task
  read. A CID and an address are carried in their string form (\<^verbatim>\<open>cid.Undef\<close> is the
  empty string), a chain epoch is an \<^verbatim>\<open>int64\<close> that is only copied and compared, the
  execution index and the receipt count are \<^verbatim>\<open>uint64\<close>.
\<close>

type_synonym cid = string
type_synonym address = string
type_synonym epoch = int
type_synonym bytes = "8 word list"

definition Undef :: cid where
  "Undef = []"

record message =
  MsgCid :: cid
  To :: address
  From :: address
  Method :: "64 word"
  Params :: bytes
  GasLimit :: int
  GasFeeCap :: int
  GasPremium :: int

text \<open>A \<^verbatim>\<open>types.ChainMsg\<close>: a BLS message or a signed Secp message, with its own CID
  and the VM message it carries.\<close>

record chain_msg =
  ChainMsgCid :: cid
  VMMessage :: message

record block_header =
  BlockCid :: cid
  BlockHeight :: epoch
  BlockParents :: "cid list"
  Messages :: cid
  ParentMessageReceipts :: cid
  ParentStateRoot :: cid
  ParentBaseFee :: int

text \<open>A tipset is never empty (lotus refuses to build one from no blocks), so the
  type carries its first block apart. All blocks of a tipset share height, parents and
  parent state, and the accessors read them from the first block.\<close>

datatype tipset = TipSet block_header "block_header list"

fun Blocks :: "tipset \<Rightarrow> block_header list" where
  "Blocks (TipSet b bs) = b # bs"

fun FirstBlock :: "tipset \<Rightarrow> block_header" where
  "FirstBlock (TipSet b bs) = b"

definition Cids :: "tipset \<Rightarrow> cid list" where
  "Cids ts = map BlockCid (Blocks ts)"

definition Key :: "tipset \<Rightarrow> cid list" where
  "Key ts = Cids ts"

definition Parents :: "tipset \<Rightarrow> cid list" where
  "Parents ts = BlockParents (FirstBlock ts)"

definition Height :: "tipset \<Rightarrow> epoch" where
  "Height ts = BlockHeight (FirstBlock ts)"

definition ParentState :: "tipset \<Rightarrow> cid" where
  "ParentState ts = ParentStateRoot (FirstBlock ts)"

record message_receipt =
  ExitCode :: int
  Return :: bytes
  GasUsed :: int

record actor =
  Code :: cid
  Head :: cid

record gas_outputs =
  BaseFeeBurn :: int
  OverEstimationBurn :: int
  MinerPenalty :: int
  MinerTip :: int
  Refund :: int
  GasRefund :: int
  GasBurned :: int

text \<open>The \<^verbatim>\<open>store.BlockMessages\<close> of lotus: the messages of one block of the parent
  tipset, as \<^verbatim>\<open>BlockMsgsForTipset\<close> returns them.\<close>

record block_messages =
  BlsMessages :: "chain_msg list"
  SecpkMessages :: "chain_msg list"

subsection \<open>Errors and log lines\<close>

text \<open>Every \<^verbatim>\<open>return nil, err\<close> of the source is a value of this type.
  \<open>External\<close> is an error handed back by a lotus call, \<open>Wrapped\<close> is
  \<^verbatim>\<open>xerrors.Errorf("...: %w", err)\<close>; the others are the errors the code makes
  itself, with the values it formats into the message. \<open>NilPointerDereference\<close> is
  the panic of Go on reading a field through a nil pointer.\<close>

datatype error =
    External string
  | Wrapped string error
  | NotOnSameChain "cid list" "cid list"
  | MismatchingBlocks nat nat
  | FromActorNotFound address epoch cid
  | MismatchingReceipts "64 word" nat
  | ReceiptNotFound "64 word"
  | ContextDone
  | PendingTxnNotFound int
  | NilPointerDereference

text \<open>The warnings \<^verbatim>\<open>repo.go\<close> writes to its logger, in the order written.\<close>

datatype log_entry =
    WarnFailedToFindTOActor epoch cid address
  | WarnFailedToResolveActorAddress address
  | WarnFailedToLoadStateTree error
  | WarnFailedToFindActorInStateTree address error

subsection \<open>The lotus calls, as an environment\<close>

record state_tree =
  ForEach :: "error + (address \<times> actor) list"
  GetActor :: "address \<Rightarrow> error + actor"

text \<open>\<^verbatim>\<open>ResolveAddress\<close> returns \<^verbatim>\<open>(ra, found, err)\<close>: \<open>Inl\<close> is the error,
  \<open>Inr None\<close> is not found.\<close>

record init_state =
  ResolveAddress :: "address \<Rightarrow> error + address option"

text \<open>An \<^verbatim>\<open>adt.Array\<close> read through the two calls the code makes on it.\<close>

record receipts_array =
  ArrLength :: "64 word"
  ArrGet :: "64 word \<Rightarrow> error + message_receipt option"

record vm =
  ShouldBurn :: "state_tree \<Rightarrow> message \<Rightarrow> int \<Rightarrow> error + bool"

text \<open>The chain store \<^verbatim>\<open>cs\<close> with its actor store, and the functions of lotus the
  extraction calls on them. \<open>InitAddress\<close> is \<^verbatim>\<open>builtininit.Address\<close>.\<close>

record chain_store =
  CidArrsEqual :: "cid list \<Rightarrow> cid list \<Rightarrow> bool"
  LoadStateTree :: "cid \<Rightarrow> error + state_tree"
  InitAddress :: address
  InitLoad :: "actor \<Rightarrow> error + init_state"
  ReadMsgMetaCids :: "cid \<Rightarrow> error + (cid list \<times> cid list)"
  BlockMsgsForTipset :: "tipset \<Rightarrow> error + block_messages list"
  AsArray :: "cid \<Rightarrow> error + receipts_array"
  NewVM :: "cid \<Rightarrow> epoch \<Rightarrow> error + vm"
  ComputeGasOutputs :: "int \<Rightarrow> int \<Rightarrow> int \<Rightarrow> int \<Rightarrow> int \<Rightarrow> bool \<Rightarrow> gas_outputs"
  MessagesForBlock :: "block_header \<Rightarrow> error + (message list \<times> chain_msg list)"

subsection \<open>The results of extraction\<close>

record executed_message =
  ExecCid :: cid
  ExecHeight :: epoch
  Message :: message
  BlockHeader :: block_header
  ExecBlocks :: "cid list"
  Index :: "64 word"
  FromActorCode :: cid
  ToActorCode :: cid
  Receipt :: "message_receipt option"
  GasOutputs :: "gas_outputs option"

record lens_block_messages =
  Block :: block_header
  LensBlsMessages :: "message list"
  LensSecpMessages :: "chain_msg list"

record tipset_messages =
  Executed :: "executed_message list"
  BlockMsgs :: "lens_block_messages list"

section \<open>lens/util/repo.go\<close>

subsection \<open>MakeGetActorCodeFunc\<close>

text \<open>The lookup \<^verbatim>\<open>actorCodes\<close> filled by \<^verbatim>\<open>ForEach\<close> over the child's state tree.\<close>

fun collectActorCodes :: "(address \<times> actor) list \<Rightarrow> (address \<rightharpoonup> cid) \<Rightarrow> (address \<rightharpoonup> cid)" where
  "collectActorCodes [] actorCodes = actorCodes"
| "collectActorCodes ((a, act) # rest) actorCodes = collectActorCodes rest (actorCodes(a \<mapsto> Code act))"

text \<open>The closure \<^verbatim>\<open>MakeGetActorCodeFunc\<close> returns (lines 269-301), with the warnings
  it logs.\<close>

definition getActorCode ::
  "chain_store \<Rightarrow> (address \<rightharpoonup> cid) \<Rightarrow> init_state \<Rightarrow> tipset \<Rightarrow> address \<Rightarrow> log_entry list \<times> cid \<times> bool" where
  "getActorCode cs actorCodes nextInitActorState current a =
    (case actorCodes a of
       Some c \<Rightarrow> ([], c, True)
     | None \<Rightarrow>
        (case ResolveAddress nextInitActorState a of
           Inl err \<Rightarrow> ([WarnFailedToResolveActorAddress a], Undef, False)
         | Inr None \<Rightarrow> ([WarnFailedToResolveActorAddress a], Undef, False)
         | Inr (Some ra) \<Rightarrow>
            (case actorCodes ra of
               Some c \<Rightarrow> ([], c, True)
             | None \<Rightarrow>
                (case LoadStateTree cs (ParentState current) of
                   Inl err \<Rightarrow> ([WarnFailedToLoadStateTree err], Undef, False)
                 | Inr currentStateTree \<Rightarrow>
                    (case GetActor currentStateTree a of
                       Inl err \<Rightarrow> ([WarnFailedToFindActorInStateTree a err], Undef, False)
                     | Inr act \<Rightarrow> ([], Code act, True))))))"

definition MakeGetActorCodeFunc ::
  "chain_store \<Rightarrow> tipset \<Rightarrow> tipset \<Rightarrow> error + (address \<Rightarrow> log_entry list \<times> cid \<times> bool)" where
  "MakeGetActorCodeFunc cs next current =
    (case LoadStateTree cs (ParentState next) of
       Inl err \<Rightarrow> Inl (Wrapped ''load state tree'' err)
     | Inr nextStateTree \<Rightarrow>
        (case ForEach nextStateTree of
           Inl err \<Rightarrow> Inl (Wrapped ''iterate actors'' err)
         | Inr entries \<Rightarrow>
            (case GetActor nextStateTree (InitAddress cs) of
               Inl err \<Rightarrow> Inl (Wrapped ''getting init actor'' err)
             | Inr nextInitActor \<Rightarrow>
                (case InitLoad cs nextInitActor of
                   Inl err \<Rightarrow> Inl (Wrapped ''loading init actor state'' err)
                 | Inr nextInitActorState \<Rightarrow>
                    Inr (getActorCode cs (collectActorCodes entries Map.empty) nextInitActorState current)))))"

subsection \<open>GetExecutedAndBlockMessagesForTipset\<close>

text \<open>Lines 42-57: the lookup of the blocks each message appears in. A key the Go map
  does not hold reads as the nil slice.\<close>

fun appendBlock :: "cid \<Rightarrow> cid list \<Rightarrow> (cid \<Rightarrow> cid list) \<Rightarrow> (cid \<Rightarrow> cid list)" where
  "appendBlock b [] messageBlocks = messageBlocks"
| "appendBlock b (c # rest) messageBlocks = appendBlock b rest (messageBlocks(c := messageBlocks c @ [b]))"

fun buildMessageBlocks ::
  "chain_store \<Rightarrow> tipset \<Rightarrow> nat \<Rightarrow> block_header list \<Rightarrow> (cid \<Rightarrow> cid list) \<Rightarrow> error + (cid \<Rightarrow> cid list)" where
  "buildMessageBlocks cs current blockIdx [] messageBlocks = Inr messageBlocks"
| "buildMessageBlocks cs current blockIdx (bh # rest) messageBlocks =
    (case ReadMsgMetaCids cs (Messages bh) of
       Inl err \<Rightarrow> Inl (Wrapped ''read messages for block'' err)
     | Inr (blscids, secpkcids) \<Rightarrow>
        buildMessageBlocks cs current (Suc blockIdx) rest
          (appendBlock (Cids current ! blockIdx) secpkcids
            (appendBlock (Cids current ! blockIdx) blscids messageBlocks)))"

text \<open>Lines 81-104 and 106-129: the two inner loops have the same body, run first over
  the block's BLS messages and then over its Secp messages. The state is the log, the
  list \<^verbatim>\<open>emsgs\<close> and the counter \<^verbatim>\<open>index\<close>.\<close>

fun appendExecuted ::
  "(address \<Rightarrow> log_entry list \<times> cid \<times> bool) \<Rightarrow> tipset \<Rightarrow> tipset \<Rightarrow> block_header \<Rightarrow> (cid \<Rightarrow> cid list) \<Rightarrow>
   chain_msg list \<Rightarrow> log_entry list \<times> executed_message list \<times> 64 word \<Rightarrow>
   log_entry list \<times> (error + executed_message list \<times> 64 word)" where
  "appendExecuted getCode next current bh messageBlocks [] (lg, emsgs, index) = (lg, Inr (emsgs, index))"
| "appendExecuted getCode next current bh messageBlocks (m # rest) (lg, emsgs, index) =
    (let msg = VMMessage m in
     case getCode (To msg) of (lgTo, toCode, foundTo) \<Rightarrow>
     (let lg1 = lg @ lgTo @
            (if \<not> foundTo then [WarnFailedToFindTOActor (Height next) (MsgCid msg) (To msg)] else []) in
      case getCode (From msg) of (lgFrom, fromCode, foundFrom) \<Rightarrow>
        if \<not> foundFrom
        then (lg1 @ lgFrom, Inl (FromActorNotFound (From msg) (Height next) (MsgCid msg)))
        else appendExecuted getCode next current bh messageBlocks rest
          (lg1 @ lgFrom,
           emsgs @ [\<lparr> ExecCid = ChainMsgCid m, ExecHeight = Height current, Message = msg,
                      BlockHeader = bh, ExecBlocks = messageBlocks (ChainMsgCid m), Index = index,
                      FromActorCode = fromCode, ToActorCode = toCode,
                      Receipt = None, GasOutputs = None \<rparr>],
           index + 1)))"

text \<open>Lines 80-131: the loop over \<^verbatim>\<open>bmsgs\<close>, which is ordered by block.\<close>

fun executeBlocks ::
  "(address \<Rightarrow> log_entry list \<times> cid \<times> bool) \<Rightarrow> tipset \<Rightarrow> tipset \<Rightarrow> block_header list \<Rightarrow> (cid \<Rightarrow> cid list) \<Rightarrow>
   nat \<Rightarrow> block_messages list \<Rightarrow> log_entry list \<times> executed_message list \<times> 64 word \<Rightarrow>
   log_entry list \<times> (error + executed_message list \<times> 64 word)" where
  "executeBlocks getCode next current pblocks messageBlocks blockIdx [] (lg, emsgs, index) =
     (lg, Inr (emsgs, index))"
| "executeBlocks getCode next current pblocks messageBlocks blockIdx (bm # rest) st =
    (case appendExecuted getCode next current (pblocks ! blockIdx) messageBlocks (BlsMessages bm) st of
       (lg1, Inl err) \<Rightarrow> (lg1, Inl err)
     | (lg1, Inr st1) \<Rightarrow>
        (case appendExecuted getCode next current (pblocks ! blockIdx) messageBlocks (SecpkMessages bm) (lg1, st1) of
           (lg2, Inl err) \<Rightarrow> (lg2, Inl err)
         | (lg2, Inr st2) \<Rightarrow>
             executeBlocks getCode next current pblocks messageBlocks (Suc blockIdx) rest (lg2, st2)))"

text \<open>Lines 161-177: every executed message gets the receipt at its index and its gas
  outputs.\<close>

fun attachReceipts ::
  "chain_store \<Rightarrow> receipts_array \<Rightarrow> vm \<Rightarrow> state_tree \<Rightarrow> executed_message list \<Rightarrow> error + executed_message list" where
  "attachReceipts cs rs vmi parentStateTree [] = Inr []"
| "attachReceipts cs rs vmi parentStateTree (em # rest) =
    (case ArrGet rs (Index em) of
       Inl err \<Rightarrow> Inl err
     | Inr None \<Rightarrow> Inl (ReceiptNotFound (Index em))
     | Inr (Some r) \<Rightarrow>
        (case ShouldBurn vmi parentStateTree (Message em) (ExitCode r) of
           Inl err \<Rightarrow> Inl (Wrapped ''deciding whether should burn failed'' err)
         | Inr burn \<Rightarrow>
            (case attachReceipts cs rs vmi parentStateTree rest of
               Inl err \<Rightarrow> Inl err
             | Inr rest' \<Rightarrow>
                Inr (em\<lparr> Receipt := Some r,
                         GasOutputs := Some (ComputeGasOutputs cs (GasUsed r) (GasLimit (Message em))
                           (ParentBaseFee (BlockHeader em)) (GasFeeCap (Message em))
                           (GasPremium (Message em)) burn) \<rparr> # rest'))))"

text \<open>Lines 178-189: the messages of every block of the child tipset.\<close>

fun collectBlockMessages :: "chain_store \<Rightarrow> block_header list \<Rightarrow> error + lens_block_messages list" where
  "collectBlockMessages cs [] = Inr []"
| "collectBlockMessages cs (blk # rest) =
    (case MessagesForBlock cs blk of
       Inl err \<Rightarrow> Inl err
     | Inr (msgs, smsgs) \<Rightarrow>
        (case collectBlockMessages cs rest of
           Inl err \<Rightarrow> Inl err
         | Inr rest' \<Rightarrow>
            Inr (\<lparr> Block = blk, LensBlsMessages = msgs, LensSecpMessages = smsgs \<rparr> # rest')))"

text \<open>Lines 133-194: what the function does once \<^verbatim>\<open>emsgs\<close> is built.\<close>

definition joinReceipts ::
  "chain_store \<Rightarrow> tipset \<Rightarrow> tipset \<Rightarrow> executed_message list \<Rightarrow> error + tipset_messages" where
  "joinReceipts cs next current emsgs =
    (case AsArray cs (ParentMessageReceipts (Blocks next ! 0)) of
       Inl err \<Rightarrow> Inl (Wrapped ''amt load'' err)
     | Inr rs \<Rightarrow>
        if ArrLength rs \<noteq> word_of_nat (length emsgs)
        then Inl (MismatchingReceipts (ArrLength rs) (length emsgs))
        else
          (case NewVM cs (ParentState current) (Height current) of
             Inl err \<Rightarrow> Inl (Wrapped ''creating temporary vm'' err)
           | Inr vmi \<Rightarrow>
              (case LoadStateTree cs (ParentState current) of
                 Inl err \<Rightarrow> Inl (Wrapped ''load state tree'' err)
               | Inr parentStateTree \<Rightarrow>
                  (case attachReceipts cs rs vmi parentStateTree emsgs of
                     Inl err \<Rightarrow> Inl err
                   | Inr emsgs' \<Rightarrow>
                      (case collectBlockMessages cs (Blocks next) of
                         Inl err \<Rightarrow> Inl err
                       | Inr blkMsgs \<Rightarrow> Inr \<lparr> Executed = emsgs', BlockMsgs = blkMsgs \<rparr>)))))"

text \<open>The whole function: the log it wrote, and the error or the result.\<close>

definition GetExecutedAndBlockMessagesForTipset ::
  "chain_store \<Rightarrow> tipset \<Rightarrow> tipset \<Rightarrow> log_entry list \<times> (error + tipset_messages)" where
  "GetExecutedAndBlockMessagesForTipset cs next current =
    (if \<not> CidArrsEqual cs (Parents next) (Cids current)
     then ([], Inl (NotOnSameChain (Key next) (Key current)))
     else
      (case MakeGetActorCodeFunc cs next current of
         Inl err \<Rightarrow> ([], Inl err)
       | Inr getCode \<Rightarrow>
          (case buildMessageBlocks cs current 0 (Blocks current) (\<lambda>c. []) of
             Inl err \<Rightarrow> ([], Inl err)
           | Inr messageBlocks \<Rightarrow>
              (case BlockMsgsForTipset cs current of
                 Inl err \<Rightarrow> ([], Inl (Wrapped ''block messages for tipset'' err))
               | Inr bmsgs \<Rightarrow>
                  (let pblocks = Blocks current in
                   if length bmsgs \<noteq> length pblocks
                   then ([], Inl (MismatchingBlocks (length bmsgs) (length pblocks)))
                   else
                    (case executeBlocks getCode next current pblocks messageBlocks 0 bmsgs ([], [], 0) of
                       (lg, Inl err) \<Rightarrow> (lg, Inl err)
                     | (lg, Inr (emsgs, index)) \<Rightarrow> (lg, joinReceipts cs next current emsgs)))))))"

section \<open>The multisig approvals task\<close>

text \<open>
  The task of package \<^verbatim>\<open>msapprovals\<close>. Token amounts are carried in the decimal form
  their \<^verbatim>\<open>String()\<close> gives, transaction ids are \<^verbatim>\<open>int64\<close> values that are only
  copied and compared.
\<close>

definition ProposeMethodNum :: "64 word" where
  "ProposeMethodNum = 2"

definition ApproveMethodNum :: "64 word" where
  "ApproveMethodNum = 3"

text \<open>What the CBOR decoders of specs-actors return, as far as the task reads it.\<close>

record propose_return =
  TxnID :: int
  ProposeApplied :: bool

record approve_return =
  ApproveApplied :: bool

record propose_params =
  ProposeTo :: address
  ProposeValue :: string

record txn_id_params =
  ID :: int

record multisig_transaction =
  TxnTo :: address
  TxnValue :: string

text \<open>The state of a multisig actor, read through the accessors the task calls.
  \<open>ForEachPendingTxn\<close> is the list of pending transactions the iteration hands to its
  callback, or the error the iteration ends with.\<close>

record multisig_state =
  InitialBalance :: "error + string"
  Threshold :: "error + 64 word"
  Signers :: "error + address list"
  ForEachPendingTxn :: "error + (int \<times> multisig_transaction) list"

text \<open>The node \<^verbatim>\<open>p.node\<close> with its store, the decoders, and the four multisig code
  CIDs of specs-actors.\<close>

record task_env =
  StateGetActor :: "address \<Rightarrow> cid list \<Rightarrow> error + actor"
  MultisigLoad :: "actor \<Rightarrow> error + multisig_state"
  UnmarshalProposeReturn :: "bytes \<Rightarrow> error + propose_return"
  UnmarshalApproveReturn :: "bytes \<Rightarrow> error + approve_return"
  UnmarshalProposeParams :: "bytes \<Rightarrow> error + propose_params"
  UnmarshalTxnIDParams :: "bytes \<Rightarrow> error + txn_id_params"
  sa0MultisigActorCodeID :: cid
  sa2MultisigActorCodeID :: cid
  sa3MultisigActorCodeID :: cid
  sa4MultisigActorCodeID :: cid

record MultisigError =
  Addr :: string
  Error :: error

record transaction =
  tx_id :: int
  tx_to :: string
  tx_value :: string

record MultisigApproval =
  ApprHeight :: int
  ApprStateRoot :: string
  ApprMultisigID :: string
  ApprMessage :: string
  ApprMethod :: "64 word"
  ApprApprover :: string
  ApprThreshold :: "64 word"
  ApprInitialBalance :: string
  ApprGasUsed :: int
  ApprTransactionID :: int
  ApprTo :: string
  ApprValue :: string
  ApprSigners :: "string list"

text \<open>\<open>ErrorsDetected\<close> stays nil, here \<open>None\<close>, when no error was detected.\<close>

record ProcessingReport =
  ReportHeight :: int
  ReportStateRoot :: string
  ErrorsDetected :: "MultisigError list option"

definition isMultisigActor :: "task_env \<Rightarrow> cid \<Rightarrow> bool" where
  "isMultisigActor env code \<longleftrightarrow>
     code = sa0MultisigActorCodeID env \<or> code = sa2MultisigActorCodeID env
     \<or> code = sa3MultisigActorCodeID env \<or> code = sa4MultisigActorCodeID env"

text \<open>\<^verbatim>\<open>ExitCode.IsSuccess\<close>: the exit code is \<^verbatim>\<open>Ok\<close>, which is 0.\<close>

definition IsSuccess :: "int \<Rightarrow> bool" where
  "IsSuccess x \<longleftrightarrow> x = 0"

text \<open>The callback of lines 251-259, run over the pending transactions: every entry
  with the wanted id overwrites \<^verbatim>\<open>tx\<close>.\<close>

fun findPendingTxn :: "int \<Rightarrow> (int \<times> multisig_transaction) list \<Rightarrow> transaction option \<Rightarrow> transaction option" where
  "findPendingTxn wanted [] tx = tx"
| "findPendingTxn wanted ((id', txn) # rest) tx =
     findPendingTxn wanted rest
       (if id' = wanted
        then Some \<lparr> tx_id = wanted, tx_to = TxnTo txn, tx_value = TxnValue txn \<rparr>
        else tx)"

text \<open>\<^verbatim>\<open>getTransactionIfApplied\<close> returns \<^verbatim>\<open>(true, tx, nil)\<close>, here \<open>Inr (Some tx)\<close>,
  \<^verbatim>\<open>(false, nil, nil)\<close>, here \<open>Inr None\<close>, or \<^verbatim>\<open>(false, nil, err)\<close>, here \<open>Inl err\<close>.\<close>

definition getTransactionIfApplied ::
  "task_env \<Rightarrow> message \<Rightarrow> message_receipt \<Rightarrow> tipset \<Rightarrow> error + transaction option" where
  "getTransactionIfApplied env msg rcpt pts =
    (if Method msg = ProposeMethodNum then
       (case UnmarshalProposeReturn env (Return rcpt) of
          Inl err \<Rightarrow> Inl (Wrapped ''failed to decode return value'' err)
        | Inr ret \<Rightarrow>
           if \<not> ProposeApplied ret then Inr None
           else
            (case UnmarshalProposeParams env (Params msg) of
               Inl err \<Rightarrow> Inl (Wrapped ''failed to decode message params'' err)
             | Inr params \<Rightarrow>
                Inr (Some \<lparr> tx_id = TxnID ret, tx_to = ProposeTo params, tx_value = ProposeValue params \<rparr>)))
     else if Method msg = ApproveMethodNum then
       (case UnmarshalApproveReturn env (Return rcpt) of
          Inl err \<Rightarrow> Inl (Wrapped ''failed to decode return value'' err)
        | Inr ret \<Rightarrow>
           if \<not> ApproveApplied ret then Inr None
           else
            (case UnmarshalTxnIDParams env (Params msg) of
               Inl err \<Rightarrow> Inl (Wrapped ''failed to decode message params'' err)
             | Inr params \<Rightarrow>
                (case StateGetActor env (To msg) (Parents pts) of
                   Inl err \<Rightarrow> Inl (Wrapped ''failed to load previous actor'' err)
                 | Inr act \<Rightarrow>
                    (case MultisigLoad env act of
                       Inl err \<Rightarrow> Inl (Wrapped ''failed to load previous actor state'' err)
                     | Inr prevActorState \<Rightarrow>
                        (case ForEachPendingTxn prevActorState of
                           Inl err \<Rightarrow> Inl (Wrapped ''failed to read transaction details'' err)
                         | Inr txns \<Rightarrow>
                            (case findPendingTxn (ID params) txns None of
                               None \<Rightarrow> Inl (PendingTxnNotFound (ID params))
                             | Some tx \<Rightarrow> Inr (Some tx)))))))
     else Inr None)"

text \<open>Lines 106-157: the state of the actor after the message, and the row.\<close>

definition recordApproval ::
  "task_env \<Rightarrow> tipset \<Rightarrow> tipset \<Rightarrow> executed_message \<Rightarrow> message_receipt \<Rightarrow> transaction \<Rightarrow>
   MultisigError list \<times> MultisigApproval list \<Rightarrow> MultisigError list \<times> MultisigApproval list" where
  "recordApproval env ts pts m rcpt tx st =
    (case st of (errorsDetected, results) \<Rightarrow>
     let failed = (\<lambda>what err.
           (errorsDetected @ [\<lparr> Addr = To (Message m), Error = Wrapped what err \<rparr>], results)) in
     case StateGetActor env (To (Message m)) (Key ts) of
       Inl err \<Rightarrow> failed ''failed to load actor'' err
     | Inr act \<Rightarrow>
        (case MultisigLoad env act of
           Inl err \<Rightarrow> failed ''failed to load actor state'' err
         | Inr actorState \<Rightarrow>
            (case InitialBalance actorState of
               Inl err \<Rightarrow> failed ''failed to read initial balance'' err
             | Inr ib \<Rightarrow>
                (case Threshold actorState of
                   Inl err \<Rightarrow> failed ''failed to read initial balance'' err
                 | Inr threshold \<Rightarrow>
                    (case Signers actorState of
                       Inl err \<Rightarrow> failed ''failed to read signers'' err
                     | Inr signers \<Rightarrow>
                        (errorsDetected,
                         results @
                         [\<lparr> ApprHeight = Height pts, ApprStateRoot = ParentState pts,
                            ApprMultisigID = To (Message m), ApprMessage = ExecCid m,
                            ApprMethod = Method (Message m), ApprApprover = From (Message m),
                            ApprThreshold = threshold, ApprInitialBalance = ib,
                            ApprGasUsed = GasUsed rcpt, ApprTransactionID = tx_id tx,
                            ApprTo = tx_to tx, ApprValue = tx_value tx,
                            ApprSigners = signers \<rparr>]))))))"

text \<open>Lines 64-157: the body of the loop for one executed message. The message carries
  its receipt behind a pointer, which the body reads once the recipient is known to be
  a multisig actor.\<close>

definition processMessage ::
  "task_env \<Rightarrow> tipset \<Rightarrow> tipset \<Rightarrow> executed_message \<Rightarrow>
   MultisigError list \<times> MultisigApproval list \<Rightarrow> error + MultisigError list \<times> MultisigApproval list" where
  "processMessage env ts pts m st =
    (if \<not> isMultisigActor env (ToActorCode m) then Inr st
     else
      (case Receipt m of
         None \<Rightarrow> Inl NilPointerDereference
       | Some rcpt \<Rightarrow>
          if \<not> IsSuccess (ExitCode rcpt) then Inr st
          else if Method (Message m) \<noteq> ProposeMethodNum \<and> Method (Message m) \<noteq> ApproveMethodNum then Inr st
          else
           (case getTransactionIfApplied env (Message m) rcpt pts of
              Inl err \<Rightarrow>
                Inr (fst st @ [\<lparr> Addr = To (Message m),
                                 Error = Wrapped ''failed to find transaction'' err \<rparr>], snd st)
            | Inr None \<Rightarrow> Inr st
            | Inr (Some tx) \<Rightarrow> Inr (recordApproval env ts pts m rcpt tx st))))"

text \<open>Lines 56-158: the loop. \<open>ctxDone i\<close> tells whether the context is found done when
  the iteration for message \<open>i\<close> polls it.\<close>

fun processAll ::
  "task_env \<Rightarrow> (nat \<Rightarrow> bool) \<Rightarrow> tipset \<Rightarrow> tipset \<Rightarrow> nat \<Rightarrow> executed_message list \<Rightarrow>
   MultisigError list \<times> MultisigApproval list \<Rightarrow> error + MultisigError list \<times> MultisigApproval list" where
  "processAll env ctxDone ts pts i [] st = Inr st"
| "processAll env ctxDone ts pts i (m # rest) st =
    (if ctxDone i then Inl ContextDone
     else
      (case processMessage env ts pts m st of
         Inl err \<Rightarrow> Inl err
       | Inr st' \<Rightarrow> processAll env ctxDone ts pts (Suc i) rest st'))"

definition ProcessMessages ::
  "task_env \<Rightarrow> (nat \<Rightarrow> bool) \<Rightarrow> tipset \<Rightarrow> tipset \<Rightarrow> executed_message list \<Rightarrow>
   error + MultisigApproval list \<times> ProcessingReport" where
  "ProcessMessages env ctxDone ts pts emsgs =
    (case processAll env ctxDone ts pts 0 emsgs ([], []) of
       Inl err \<Rightarrow> Inl err
     | Inr (errorsDetected, results) \<Rightarrow>
        Inr (results,
             \<lparr> ReportHeight = Height pts, ReportStateRoot = ParentState pts,
               ErrorsDetected = (if errorsDetected \<noteq> [] then Some errorsDetected else None) \<rparr>))"

text \<open>Lines 160-164 on the outcome of the loop: the report gets the detected errors when
  there are any, and the rows and the report are returned.\<close>

definition finishReport ::
  "tipset \<Rightarrow> error + MultisigError list \<times> MultisigApproval list \<Rightarrow>
   error + MultisigApproval list \<times> ProcessingReport" where
  "finishReport pts outcome =
    (case outcome of
       Inl err \<Rightarrow> Inl err
     | Inr (errorsDetected, results) \<Rightarrow>
        Inr (results,
             \<lparr> ReportHeight = Height pts, ReportStateRoot = ParentState pts,
               ErrorsDetected = (if errorsDetected \<noteq> [] then Some errorsDetected else None) \<rparr>))"

section \<open>The persistence layer\<close>

text \<open>
  Package \<^verbatim>\<open>storage\<close> is known by its tests only (\<^verbatim>\<open>TestModelUpsert\<close>,
  \<^verbatim>\<open>TestLongNames\<close>, \<^verbatim>\<open>TestUpsertSQLGeneration\<close>, \<^verbatim>\<open>TestDatabasePersistWithVersion\<close>,
  \<^verbatim>\<open>TestDatabaseUpsertWithVersion\<close>, \<^verbatim>\<open>TestDatabasePersistWithUnsupportedVersion\<close>):
  the functions they call are written out below from sections 3, 4.2, 4.3, 6 and 8 of the
  specification, with the outcomes those tests require.
\<close>

datatype sql_value = SqlInt int | SqlText string | SqlNull

datatype storage_error = ErrNameTooLong | ErrBadURL | ErrUndefinedColumn string

text \<open>Modelled from the spec: the descriptor of one field of a model struct (its
  \<^verbatim>\<open>pg\<close> tag): the column name, whether it takes part in the primary key, whether
  it is ignored, and the major schema version in which it appeared.\<close>

record column =
  SQLName :: string
  PK :: bool
  Ignored :: bool
  Introduced :: nat

text \<open>Modelled from the spec: a model value, the descriptors of the fields of its
  struct in the order declared, and the value of each field under its column name.\<close>

record model =
  Columns :: "column list"
  FieldValue :: "string \<Rightarrow> sql_value"

text \<open>Modelled from the spec: the conflict columns of \<^verbatim>\<open>GenerateUpsertStrings\<close>, the
  declared primary key, sorted.\<close>

definition conflictColumns :: "column list \<Rightarrow> string list" where
  "conflictColumns flds = sort (map SQLName (filter (\<lambda>f. PK f \<and> \<not> Ignored f) flds))"

text \<open>Modelled from the spec: the update columns of \<^verbatim>\<open>GenerateUpsertStrings\<close>, all
  columns that are neither in the primary key nor ignored, sorted.\<close>

definition updateColumns :: "column list \<Rightarrow> string list" where
  "updateColumns flds = sort (map SQLName (filter (\<lambda>f. \<not> PK f \<and> \<not> Ignored f) flds))"

text \<open>Modelled from the spec: the items of a clause, joined by a separator.\<close>

fun joinWith :: "string \<Rightarrow> string list \<Rightarrow> string" where
  "joinWith sep [] = []"
| "joinWith sep [x] = x"
| "joinWith sep (x # y # rest) = x @ sep @ joinWith sep (y # rest)"

text \<open>Modelled from the spec: one assignment of the update clause. The spaces around
  the equals sign are those of \<^verbatim>\<open>ExpectedUpsertStatement\<close> in the test.\<close>

definition assignExcluded :: "string \<Rightarrow> string" where
  "assignExcluded col = [CHR 0x22] @ col @ [CHR 0x22] @ '' = EXCLUDED.'' @ col"

text \<open>Modelled from the spec: \<^verbatim>\<open>GenerateUpsertStrings\<close> of package storage, which
  returns the conflict clause and the update clause of a model.\<close>

definition GenerateUpsertStrings :: "column list \<Rightarrow> string \<times> string" where
  "GenerateUpsertStrings flds =
     (''('' @ joinWith '', '' (conflictColumns flds) @ '') DO UPDATE'',
      joinWith '', '' (map assignExcluded (updateColumns flds)))"

text \<open>The descriptor of \<^verbatim>\<open>TestingUpsertStruct\<close> (lines 450-469 of the storage tests),
  with the column names go-pg derives from the field names.\<close>

definition plainColumn :: "string \<Rightarrow> column" where
  "plainColumn name = \<lparr> SQLName = name, PK = False, Ignored = False, Introduced = 0 \<rparr>"

definition keyColumn :: "string \<Rightarrow> column" where
  "keyColumn name = \<lparr> SQLName = name, PK = True, Ignored = False, Introduced = 0 \<rparr>"

definition TestingUpsertStruct :: "column list" where
  "TestingUpsertStruct =
     [\<lparr> SQLName = ''ignored'', PK = False, Ignored = True, Introduced = 0 \<rparr>,
      keyColumn ''height'', keyColumn ''cid'', keyColumn ''state_root'',
      plainColumn ''heads'', plainColumn ''shoulders'', plainColumn ''knees'',
      plainColumn ''toes'', plainColumn ''camel_case'']"

text \<open>Modelled from the spec: the statement of the test's
  \<^verbatim>\<open>ExpectedUpsertStatement\<close>, and the update clause as property P5 of the
  specification prints it for the non-key columns x, y, z.\<close>

definition ExpectedUpsertStatement :: string where
  "ExpectedUpsertStatement =
     [CHR 0x22] @ ''camel_case'' @ [CHR 0x22] @ '' = EXCLUDED.camel_case, ''
     @ [CHR 0x22] @ ''heads'' @ [CHR 0x22] @ '' = EXCLUDED.heads, ''
     @ [CHR 0x22] @ ''knees'' @ [CHR 0x22] @ '' = EXCLUDED.knees, ''
     @ [CHR 0x22] @ ''shoulders'' @ [CHR 0x22] @ '' = EXCLUDED.shoulders, ''
     @ [CHR 0x22] @ ''toes'' @ [CHR 0x22] @ '' = EXCLUDED.toes''"

definition specUpdateClauseXYZ :: string where
  "specUpdateClauseXYZ =
     [CHR 0x22] @ ''x'' @ [CHR 0x22] @ ''=EXCLUDED.x, ''
     @ [CHR 0x22] @ ''y'' @ [CHR 0x22] @ ''=EXCLUDED.y, ''
     @ [CHR 0x22] @ ''z'' @ [CHR 0x22] @ ''=EXCLUDED.z''"

definition codeUpdateClauseXYZ :: string where
  "codeUpdateClauseXYZ =
     [CHR 0x22] @ ''x'' @ [CHR 0x22] @ '' = EXCLUDED.x, ''
     @ [CHR 0x22] @ ''y'' @ [CHR 0x22] @ '' = EXCLUDED.y, ''
     @ [CHR 0x22] @ ''z'' @ [CHR 0x22] @ '' = EXCLUDED.z''"

subsection \<open>Names\<close>

text \<open>Modelled from the spec: \<^verbatim>\<open>MaxPostgresNameLength\<close> of package storage, the
  identifier limit of the database, 63 bytes by section 6.\<close>

definition MaxPostgresNameLength :: nat where
  "MaxPostgresNameLength = 63"

text \<open>Modelled from the spec: the handle \<^verbatim>\<open>NewDatabase\<close> builds, not yet connected.\<close>

record database_handle =
  HandleURL :: string
  HandlePoolSize :: int
  HandleName :: string
  HandleSchemaName :: string
  HandleUpsert :: bool

text \<open>Modelled from the spec: \<^verbatim>\<open>NewDatabase\<close> of package storage. A name or schema
  name over the identifier limit and a URL that does not parse are configuration errors;
  \<open>urlParses\<close> stands for the parser of database URLs.\<close>

definition NewDatabase ::
  "(string \<Rightarrow> bool) \<Rightarrow> string \<Rightarrow> int \<Rightarrow> string \<Rightarrow> string \<Rightarrow> bool \<Rightarrow> storage_error + database_handle" where
  "NewDatabase urlParses url poolSize name schemaName upsert =
    (if length name > MaxPostgresNameLength then Inl ErrNameTooLong
     else if length schemaName > MaxPostgresNameLength then Inl ErrNameTooLong
     else if \<not> urlParses url then Inl ErrBadURL
     else Inr \<lparr> HandleURL = url, HandlePoolSize = poolSize, HandleName = name,
                HandleSchemaName = schemaName, HandleUpsert = upsert \<rparr>)"

subsection \<open>Persisting a model\<close>

text \<open>Modelled from the spec: a table of the database, its columns and its rows; a row
  gives the values of the columns an insert named.\<close>

type_synonym row = "(string \<times> sql_value) list"

record db_table =
  TableColumns :: "string list"
  TableRows :: "row list"

text \<open>Modelled from the spec: the \<^verbatim>\<open>Database\<close> of package storage as the tests build
  it: the upsert switch, the major version of the active schema, and the table of the
  model behind the connection.\<close>

record Database =
  Upsert :: bool
  version :: nat
  db :: db_table

text \<open>Modelled from the spec: the fields of a model that exist at a schema version.
  An ignored field and a field introduced after that version are left out.\<close>

definition emittedColumns :: "nat \<Rightarrow> model \<Rightarrow> column list" where
  "emittedColumns major m = filter (\<lambda>c. \<not> Ignored c \<and> Introduced c \<le> major) (Columns m)"

text \<open>Modelled from the spec: the column list of the INSERT or UPSERT statement.\<close>

definition insertColumns :: "nat \<Rightarrow> model \<Rightarrow> string list" where
  "insertColumns major m = map SQLName (emittedColumns major m)"

text \<open>Modelled from the spec: the row the statement inserts.\<close>

definition insertedRow :: "nat \<Rightarrow> model \<Rightarrow> row" where
  "insertedRow major m = map (\<lambda>c. (SQLName c, FieldValue m (SQLName c))) (emittedColumns major m)"

text \<open>Modelled from the spec: the values of a row in the key columns.\<close>

definition rowKey :: "string list \<Rightarrow> row \<Rightarrow> sql_value option list" where
  "rowKey key r = map (map_of r) key"

text \<open>Modelled from the spec: \<^verbatim>\<open>DO UPDATE SET non_pk = EXCLUDED.non_pk\<close> on the row in
  conflict.\<close>

definition mergeRow :: "string list \<Rightarrow> row \<Rightarrow> row \<Rightarrow> row" where
  "mergeRow cols new old =
     map (\<lambda>(c, v). (c, if c \<in> set cols then (case map_of new c of Some x \<Rightarrow> x | None \<Rightarrow> v) else v)) old"

text \<open>Modelled from the spec: the insert with its conflict clause. A row with the same
  key is updated when upsert is enabled (\<open>Some\<close> of the update columns) and left alone,
  without an error, when it is not, as \<^verbatim>\<open>TestModelUpsert\<close> requires of the second
  insert.\<close>

fun insertRow :: "string list \<Rightarrow> string list option \<Rightarrow> row \<Rightarrow> row list \<Rightarrow> row list" where
  "insertRow key upd new [] = [new]"
| "insertRow key upd new (r # rest) =
    (if rowKey key r = rowKey key new
     then (case upd of None \<Rightarrow> r # rest | Some cols \<Rightarrow> mergeRow cols new r # rest)
     else r # insertRow key upd new rest)"

text \<open>Modelled from the spec: the statement the persistence layer emits for a model:
  the columns of the \<^verbatim>\<open>INSERT\<close> with their values, the conflict columns of
  \<^verbatim>\<open>ON CONFLICT\<close>, and the columns of \<^verbatim>\<open>DO UPDATE SET\<close>, which a plain insert
  (upsert disabled) does not have.\<close>

record sql_statement =
  InsertInto :: row
  OnConflict :: "string list"
  DoUpdateSet :: "string list option"

text \<open>Modelled from the spec: the statement for a model at the active schema version.
  The column list, the conflict columns and the update columns are all taken from the
  fields that exist at that version (section 4.2: ``ignored-at-this-version columns are
  omitted from both lists''); a model with no field at that version has no statement.\<close>

definition persistStatement :: "Database \<Rightarrow> model \<Rightarrow> sql_statement option" where
  "persistStatement d m =
    (let cols = emittedColumns (version d) m in
     if cols = [] then None
     else Some \<lparr> InsertInto = insertedRow (version d) m,
                 OnConflict = conflictColumns cols,
                 DoUpdateSet = (if Upsert d then Some (updateColumns cols) else None) \<rparr>)"

text \<open>Modelled from the spec: every column a statement names, in its column list, in
  its conflict clause or in its update clause.\<close>

definition statementColumns :: "sql_statement \<Rightarrow> string list" where
  "statementColumns stmt =
     map fst (InsertInto stmt) @ OnConflict stmt
     @ (case DoUpdateSet stmt of None \<Rightarrow> [] | Some cols \<Rightarrow> cols)"

text \<open>Modelled from the spec: the database running a statement on the table. Naming a
  column the table lacks, in any clause, is an error of the database.\<close>

definition executeStatement :: "db_table \<Rightarrow> sql_statement \<Rightarrow> storage_error + db_table" where
  "executeStatement t stmt =
    (case find (\<lambda>c. c \<notin> set (TableColumns t)) (statementColumns stmt) of
       Some c \<Rightarrow> Inl (ErrUndefinedColumn c)
     | None \<Rightarrow>
        Inr (t\<lparr> TableRows :=
               insertRow (OnConflict stmt) (DoUpdateSet stmt) (InsertInto stmt) (TableRows t) \<rparr>))"

text \<open>Modelled from the spec: \<^verbatim>\<open>PersistBatch\<close> of package storage for one model. A model
  with no field at the active version is not persisted, without an error, as
  \<^verbatim>\<open>TestDatabasePersistWithUnsupportedVersion\<close> requires.\<close>

definition PersistBatch :: "Database \<Rightarrow> model \<Rightarrow> storage_error + Database" where
  "PersistBatch d m =
    (case persistStatement d m of
       None \<Rightarrow> Inr d
     | Some stmt \<Rightarrow>
        (case executeStatement (db d) stmt of
           Inl err \<Rightarrow> Inl err
         | Inr t \<Rightarrow> Inr (d\<lparr> db := t \<rparr>)))"

text \<open>The model of \<^verbatim>\<open>TestDatabasePersistWithVersion\<close> and of
  \<^verbatim>\<open>TestDatabaseUpsertWithVersion\<close>: \<^verbatim>\<open>height\<close> and \<^verbatim>\<open>block\<close> since major
  version 2, \<^verbatim>\<open>message\<close> since major version 3.\<close>

definition messageColumn :: column where
  "messageColumn = \<lparr> SQLName = ''message'', PK = False, Ignored = False, Introduced = 3 \<rparr>"

definition VersionedModelLatest :: "int \<Rightarrow> string \<Rightarrow> string \<Rightarrow> model" where
  "VersionedModelLatest height block msg =
     \<lparr> Columns =
         [\<lparr> SQLName = ''height'', PK = True, Ignored = False, Introduced = 2 \<rparr>,
          \<lparr> SQLName = ''block'', PK = False, Ignored = False, Introduced = 2 \<rparr>,
          messageColumn],
       FieldValue = (\<lambda>name.
          if name = ''height'' then SqlInt height
          else if name = ''block'' then SqlText block
          else if name = ''message'' then SqlText msg
          else SqlNull) \<rparr>"

text \<open>The model of \<^verbatim>\<open>TestModelUpsert\<close>, cut down to its key and its owner.\<close>

definition MinerInfo :: "int \<Rightarrow> string \<Rightarrow> string \<Rightarrow> string \<Rightarrow> model" where
  "MinerInfo height minerID stateRoot ownerID =
     \<lparr> Columns = [keyColumn ''height'', keyColumn ''miner_id'', keyColumn ''state_root'',
                  plainColumn ''owner_id''],
       FieldValue = (\<lambda>name.
          if name = ''height'' then SqlInt height
          else if name = ''miner_id'' then SqlText minerID
          else if name = ''state_root'' then SqlText stateRoot
          else if name = ''owner_id'' then SqlText ownerID
          else SqlNull) \<rparr>"

text \<open>The databases of the tests: the table \<^verbatim>\<open>versioned_model\<close> as created for major
  version 2 and for major version 3, with upsert as the test sets it, and the table
  \<^verbatim>\<open>miner_infos\<close> after \<^verbatim>\<open>TRUNCATE\<close>.\<close>

definition versionedDatabase :: "bool \<Rightarrow> nat \<Rightarrow> Database" where
  "versionedDatabase upsert major =
     \<lparr> Upsert = upsert, version = major,
       db = \<lparr> TableColumns = (if major < 3 then [''height'', ''block'']
                               else [''height'', ''block'', ''message'']),
              TableRows = [] \<rparr> \<rparr>"

definition minerDatabase :: "bool \<Rightarrow> Database" where
  "minerDatabase upsert =
     \<lparr> Upsert = upsert, version = 1,
       db = \<lparr> TableColumns = [''height'', ''miner_id'', ''state_root'', ''owner_id''],
              TableRows = [] \<rparr> \<rparr>"

text \<open>A parser of database URLs for the examples: it asks for the postgres scheme.\<close>

definition demoURLParses :: "string \<Rightarrow> bool" where
  "demoURLParses url \<longleftrightarrow> take 11 url = ''postgres://''"

section \<open>The order of execution, as the specification words it\<close>

text \<open>The BLS messages of block 0, then its Secp messages, then block 1 and so on: every
  message of \<^verbatim>\<open>bmsgs\<close> with the header of the block it was read for.\<close>

definition executionOrder :: "block_header list \<Rightarrow> block_messages list \<Rightarrow> (block_header \<times> chain_msg) list" where
  "executionOrder pblocks bmsgs =
     concat (map (\<lambda>(bh, bm). map (Pair bh) (BlsMessages bm @ SecpkMessages bm)) (zip pblocks bmsgs))"

text \<open>What places an executed message in that order: its block, its CID and the message
  it carries.\<close>

definition placed :: "executed_message \<Rightarrow> block_header \<times> cid \<times> message" where
  "placed em = (BlockHeader em, ExecCid em, Message em)"

definition carried :: "block_header \<times> chain_msg \<Rightarrow> block_header \<times> cid \<times> message" where
  "carried p = (fst p, ChainMsgCid (snd p), VMMessage (snd p))"


text \<open>Lines 70-73: the number of messages in \<^verbatim>\<open>bmsgs\<close>.\<close>

definition countMessages :: "block_messages list \<Rightarrow> nat" where
  "countMessages bmsgs = sum_list (map (\<lambda>bm. length (BlsMessages bm) + length (SecpkMessages bm)) bmsgs)"





section \<open>The interest of the approvals task, as the specification words it\<close>




section \<open>A small chain for the closed examples\<close>

text \<open>A parent tipset of two blocks at height 10 and its child at height 11. Block A
  carries the BLS message m1 and the Secp message s2, block B the BLS message m3 (and m1
  again, which \<^verbatim>\<open>BlockMsgsForTipset\<close> drops as a duplicate). The sender of s2 is a key
  address the init actor maps to f0102; its recipient f0999 exists nowhere. The sender
  of m3, f0103, was deleted by the parent's messages: it is in the parent's state tree
  only. The init actor resolves an ID address (f0...) to itself and knows the one key
  address f1key.\<close>

definition demoMsg1 :: message where
  "demoMsg1 = \<lparr> MsgCid = ''m1'', To = ''f0101'', From = ''f0100'', Method = 2, Params = [],
                 GasLimit = 100, GasFeeCap = 10, GasPremium = 1 \<rparr>"

definition demoMsg2 :: message where
  "demoMsg2 = \<lparr> MsgCid = ''m2'', To = ''f0999'', From = ''f1key'', Method = 0, Params = [],
                 GasLimit = 100, GasFeeCap = 10, GasPremium = 1 \<rparr>"

definition demoMsg3 :: message where
  "demoMsg3 = \<lparr> MsgCid = ''m3'', To = ''f0100'', From = ''f0103'', Method = 0, Params = [],
                 GasLimit = 100, GasFeeCap = 10, GasPremium = 1 \<rparr>"

definition demoBlockA :: block_header where
  "demoBlockA = \<lparr> BlockCid = ''blkA'', BlockHeight = 10, BlockParents = [''blk0''], Messages = ''metaA'',
                   ParentMessageReceipts = ''rcpt9'', ParentStateRoot = ''state9'', ParentBaseFee = 100 \<rparr>"

definition demoBlockB :: block_header where
  "demoBlockB = \<lparr> BlockCid = ''blkB'', BlockHeight = 10, BlockParents = [''blk0''], Messages = ''metaB'',
                   ParentMessageReceipts = ''rcpt9'', ParentStateRoot = ''state9'', ParentBaseFee = 100 \<rparr>"

definition demoBlockC :: block_header where
  "demoBlockC = \<lparr> BlockCid = ''blkC'', BlockHeight = 11, BlockParents = [''blkB'', ''blkA''], Messages = ''metaC'',
                   ParentMessageReceipts = ''rcpt10'', ParentStateRoot = ''state10'', ParentBaseFee = 100 \<rparr>"

definition demoParent :: tipset where
  "demoParent = TipSet demoBlockA [demoBlockB]"

definition demoChild :: tipset where
  "demoChild = TipSet demoBlockC []"

definition demoOrphan :: tipset where
  "demoOrphan = TipSet (demoBlockC\<lparr> BlockParents := [''blkA'', ''blkX''] \<rparr>) []"

definition demoTree :: "(address \<times> actor) list \<Rightarrow> state_tree" where
  "demoTree entries =
     \<lparr> ForEach = Inr entries,
       GetActor = (\<lambda>a. case map_of entries a of
                          Some act \<Rightarrow> Inr act
                        | None \<Rightarrow> Inl (External ''actor not found'')) \<rparr>"

definition demoChildEntries :: "(address \<times> actor) list" where
  "demoChildEntries =
     [(''f01'', \<lparr> Code = ''init'', Head = ''h1'' \<rparr>),
      (''f0100'', \<lparr> Code = ''account'', Head = ''h2'' \<rparr>),
      (''f0101'', \<lparr> Code = ''multisig'', Head = ''h3'' \<rparr>),
      (''f0102'', \<lparr> Code = ''account'', Head = ''h4'' \<rparr>)]"

definition demoParentEntries :: "(address \<times> actor) list" where
  "demoParentEntries = demoChildEntries @
     [(''f0103'', \<lparr> Code = ''paych'', Head = ''h5'' \<rparr>)]"

definition demoInit :: init_state where
  "demoInit = \<lparr> ResolveAddress = (\<lambda>a.
       if a = ''f1key'' then Inr (Some ''f0102'')
       else if take 2 a = ''f0'' then Inr (Some a)
       else Inr None) \<rparr>"

definition demoReceipts :: receipts_array where
  "demoReceipts = \<lparr> ArrLength = 3,
       ArrGet = (\<lambda>i. if i < 3 then Inr (Some \<lparr> ExitCode = 0, Return = [], GasUsed = 50 + sint i \<rparr>)
                      else Inr None) \<rparr>"

definition demoBmsgs :: "block_messages list" where
  "demoBmsgs =
     [\<lparr> BlsMessages = [\<lparr> ChainMsgCid = ''m1'', VMMessage = demoMsg1 \<rparr>],
        SecpkMessages = [\<lparr> ChainMsgCid = ''s2'', VMMessage = demoMsg2 \<rparr>] \<rparr>,
      \<lparr> BlsMessages = [\<lparr> ChainMsgCid = ''m3'', VMMessage = demoMsg3 \<rparr>],
        SecpkMessages = [] \<rparr>]"

definition demoStore :: chain_store where
  "demoStore =
     \<lparr> CidArrsEqual = (\<lambda>a b. length a = length b \<and> list_all (\<lambda>c. c \<in> set a) b),
       LoadStateTree = (\<lambda>c. if c = ''state10'' then Inr (demoTree demoChildEntries)
                             else if c = ''state9'' then Inr (demoTree demoParentEntries)
                             else Inl (External ''state root not found'')),
       InitAddress = ''f01'',
       InitLoad = (\<lambda>act. Inr demoInit),
       ReadMsgMetaCids = (\<lambda>c. if c = ''metaA'' then Inr ([''m1''], [''s2''])
                               else if c = ''metaB'' then Inr ([''m3'', ''m1''], [])
                               else Inl (External ''message meta not found'')),
       BlockMsgsForTipset = (\<lambda>ts. Inr demoBmsgs),
       AsArray = (\<lambda>c. if c = ''rcpt10'' then Inr demoReceipts else Inl (External ''array not found'')),
       NewVM = (\<lambda>base ep. Inr \<lparr> ShouldBurn = (\<lambda>st m ec. Inr False) \<rparr>),
       ComputeGasOutputs = (\<lambda>gasUsed gasLimit baseFee feeCap premium burn.
          \<lparr> BaseFeeBurn = baseFee * gasUsed, OverEstimationBurn = 0, MinerPenalty = 0,
            MinerTip = premium * gasLimit, Refund = 0, GasRefund = gasLimit - gasUsed, GasBurned = 0 \<rparr>),
       MessagesForBlock = (\<lambda>blk. Inr ([], [])) \<rparr>"


definition demoExtracted :: tipset_messages where
  "demoExtracted = projr (snd (GetExecutedAndBlockMessagesForTipset demoStore demoChild demoParent))"

definition demoShortReceipts :: receipts_array where
  "demoShortReceipts = demoReceipts\<lparr> ArrLength := 2 \<rparr>"

definition demoShortStore :: chain_store where
  "demoShortStore = demoStore\<lparr> AsArray := (\<lambda>c. Inr demoShortReceipts) \<rparr>"





text \<open>A multisig actor f0101 for the approvals task. Before the messages of the parent
  tipset its transaction 7, paying 100 to f0200, is pending; after them nothing is. The
  decoders read a return value or parameters of one or two bytes and refuse the rest.\<close>

definition demoMsigBefore :: multisig_state where
  "demoMsigBefore =
     \<lparr> InitialBalance = Inr ''0'', Threshold = Inr 2, Signers = Inr [''f0100'', ''f0102''],
       ForEachPendingTxn = Inr [(5, \<lparr> TxnTo = ''f0300'', TxnValue = ''1'' \<rparr>),
                                (7, \<lparr> TxnTo = ''f0200'', TxnValue = ''100'' \<rparr>)] \<rparr>"

definition demoMsigAfter :: multisig_state where
  "demoMsigAfter =
     \<lparr> InitialBalance = Inr ''0'', Threshold = Inr 2, Signers = Inr [''f0100'', ''f0102''],
       ForEachPendingTxn = Inr [(5, \<lparr> TxnTo = ''f0300'', TxnValue = ''1'' \<rparr>)] \<rparr>"

definition demoEnv :: task_env where
  "demoEnv =
     \<lparr> StateGetActor = (\<lambda>a tsk.
          if a = ''f0101''
          then Inr \<lparr> Code = ''multisig'', Head = (if tsk = [''blk0''] then ''before'' else ''after'') \<rparr>
          else Inl (External ''actor not found'')),
       MultisigLoad = (\<lambda>act. Inr (if Head act = ''before'' then demoMsigBefore else demoMsigAfter)),
       UnmarshalProposeReturn = (\<lambda>bs. case bs of
            [t, a] \<Rightarrow> Inr \<lparr> TxnID = uint t, ProposeApplied = (a = 1) \<rparr>
          | _ \<Rightarrow> Inl (External ''cbor: unexpected input'')),
       UnmarshalApproveReturn = (\<lambda>bs. case bs of
            [a] \<Rightarrow> Inr \<lparr> ApproveApplied = (a = 1) \<rparr>
          | _ \<Rightarrow> Inl (External ''cbor: unexpected input'')),
       UnmarshalProposeParams = (\<lambda>bs. case bs of
            [v] \<Rightarrow> Inr \<lparr> ProposeTo = ''f0200'', ProposeValue = ''100'' \<rparr>
          | _ \<Rightarrow> Inl (External ''cbor: unexpected input'')),
       UnmarshalTxnIDParams = (\<lambda>bs. case bs of
            [i] \<Rightarrow> Inr \<lparr> ID = uint i \<rparr>
          | _ \<Rightarrow> Inl (External ''cbor: unexpected input'')),
       sa0MultisigActorCodeID = ''multisig0'',
       sa2MultisigActorCodeID = ''multisig2'',
       sa3MultisigActorCodeID = ''multisig'',
       sa4MultisigActorCodeID = ''multisig4'' \<rparr>"

text \<open>An executed message to f0101 with the given CID, recipient code, method,
  parameters, exit code and return value.\<close>

definition demoExec :: "cid \<Rightarrow> cid \<Rightarrow> 64 word \<Rightarrow> bytes \<Rightarrow> int \<Rightarrow> bytes \<Rightarrow> executed_message" where
  "demoExec c toCode method params exit ret =
     \<lparr> ExecCid = c, ExecHeight = 10,
       Message = \<lparr> MsgCid = c, To = ''f0101'', From = ''f0100'', Method = method, Params = params,
                   GasLimit = 100, GasFeeCap = 10, GasPremium = 1 \<rparr>,
       BlockHeader = demoBlockA, ExecBlocks = [''blkA''], Index = 0,
       FromActorCode = ''account'', ToActorCode = toCode,
       Receipt = Some \<lparr> ExitCode = exit, Return = ret, GasUsed = 50 \<rparr>,
       GasOutputs = None \<rparr>"


definition demoApprove :: executed_message where
  "demoApprove = demoExec ''a1'' ''multisig'' 3 [7] 0 [1]"

definition demoApproveGone :: executed_message where
  "demoApproveGone = demoExec ''a2'' ''multisig'' 3 [9] 0 [1]"






definition demoNever :: "nat \<Rightarrow> bool" where
  "demoNever i = False"



section \<open>Properties of message extraction\<close>

text \<open>
  C10. Extraction needs a genuine parent/child pair: when the comparison of the child's
  parent CIDs with the CIDs of the supplied parent tipset fails, the function returns
  the not-on-the-same-chain error at once. Nothing is logged and no other call on the
  chain store decides the outcome; the comparison itself is lotus's order-insensitive
  \<^verbatim>\<open>types.CidArrsEqual\<close>.
\<close>

theorem not_parent_child_is_error:
  assumes "\<not> CidArrsEqual cs (Parents next) (Cids current)"
  shows "GetExecutedAndBlockMessagesForTipset cs next current
           = ([], Inl (NotOnSameChain (Key next) (Key current)))"
  using assms by (simp add: GetExecutedAndBlockMessagesForTipset_def)


theorem not_parent_child_is_error_witness:
  "\<not> CidArrsEqual demoStore (Parents demoOrphan) (Cids demoParent)
   \<and> GetExecutedAndBlockMessagesForTipset demoStore demoOrphan demoParent
       = ([], Inl (NotOnSameChain [''blkC''] [''blkA'', ''blkB'']))"
proof -
  have h: "\<not> CidArrsEqual demoStore (Parents demoOrphan) (Cids demoParent)"
    by code_simp
  have k: "Key demoOrphan = [''blkC'']" "Key demoParent = [''blkA'', ''blkB'']"
    by code_simp+
  from not_parent_child_is_error[OF h] h k show ?thesis by simp
qed

subsection \<open>The executed messages follow the blocks\<close>

lemma appendExecuted_Inr:
  "appendExecuted g next current bh mb ms (lg, emsgs, index) = (lg', Inr (emsgs', index')) \<Longrightarrow>
   \<exists>new. emsgs' = emsgs @ new \<and> map placed new = map (\<lambda>m. carried (bh, m)) ms
     \<and> map Index new = map (\<lambda>k. index + word_of_nat k) [0..<length ms]
     \<and> index' = index + word_of_nat (length ms)"
proof (induction ms arbitrary: lg emsgs index)
  case Nil
  then show ?case by simp
next
  case (Cons m ms)
  obtain lgTo toCode foundTo where t: "g (To (VMMessage m)) = (lgTo, toCode, foundTo)"
    by (cases "g (To (VMMessage m))") auto
  obtain lgFrom fromCode foundFrom where f: "g (From (VMMessage m)) = (lgFrom, fromCode, foundFrom)"
    by (cases "g (From (VMMessage m))") auto
  from Cons.prems t f have ff: foundFrom
    by (auto simp: Let_def split: if_splits)
  let ?e = "\<lparr> ExecCid = ChainMsgCid m, ExecHeight = Height current, Message = VMMessage m,
                      BlockHeader = bh, ExecBlocks = mb (ChainMsgCid m), Index = index,
                      FromActorCode = fromCode, ToActorCode = toCode,
                      Receipt = None, GasOutputs = None \<rparr>"
  from Cons.prems t f ff obtain lg1 where
    rec: "appendExecuted g next current bh mb ms (lg1, emsgs @ [?e], index + 1) = (lg', Inr (emsgs', index'))"
    by (auto simp: Let_def)
  from Cons.IH[OF rec] obtain new where
    n: "emsgs' = (emsgs @ [?e]) @ new" "map placed new = map (\<lambda>m. carried (bh, m)) ms"
       "map Index new = map (\<lambda>k. index + 1 + word_of_nat k) [0..<length ms]"
       "index' = index + 1 + word_of_nat (length ms)"
    by blast
  have shift: "map (\<lambda>k. index + word_of_nat k) [0..<length (m # ms)]
      = index # map (\<lambda>k. index + 1 + word_of_nat k) [0..<length ms]"
  proof -
    have "[0..<length (m # ms)] = 0 # map Suc [0..<length ms]"
      by (simp add: upt_conv_Cons map_Suc_upt del: upt_Suc)
    then show ?thesis by (simp add: o_def add.assoc del: upt_Suc)
  qed
  have pe: "placed ?e = carried (bh, m)"
    by (simp add: placed_def carried_def)
  have "emsgs' = emsgs @ (?e # new)" using n(1) by simp
  moreover have "map placed (?e # new) = map (\<lambda>m. carried (bh, m)) (m # ms)"
    using n(2) pe by simp
  moreover have "map Index (?e # new) = map (\<lambda>k. index + word_of_nat k) [0..<length (m # ms)]"
    unfolding shift using n(3) by simp
  moreover have "index' = index + word_of_nat (length (m # ms))"
    using n(4) by (simp add: add.assoc)
  ultimately show ?case by blast
qed


lemma appendExecuted_length:
  assumes "appendExecuted g next current bh mb ms (lg, emsgs, index) = (lg', Inr (emsgs', index'))"
  obtains new where "emsgs' = emsgs @ new" "map placed new = map (\<lambda>m. carried (bh, m)) ms"
    "map Index new = map (\<lambda>k. index + word_of_nat k) [0..<length new]"
    "index' = index + word_of_nat (length new)"
proof -
  from appendExecuted_Inr[OF assms] obtain new where
    n: "emsgs' = emsgs @ new" "map placed new = map (\<lambda>m. carried (bh, m)) ms"
       "map Index new = map (\<lambda>k. index + word_of_nat k) [0..<length ms]"
       "index' = index + word_of_nat (length ms)"
    by blast
  from n(2) have "length new = length ms" by (rule map_eq_imp_length_eq)
  with n that show thesis by simp
qed

lemma index_range_append:
  fixes i :: "64 word"
  shows "map (\<lambda>j. i + word_of_nat j) [0..<a + b]
    = map (\<lambda>j. i + word_of_nat j) [0..<a] @ map (\<lambda>j. (i + word_of_nat a) + word_of_nat j) [0..<b]"
  by (induction b) (simp_all add: add.assoc)

lemma executionOrder_Cons:
  "executionOrder (bh # pblocks) (bm # bms)
     = map (Pair bh) (BlsMessages bm) @ map (Pair bh) (SecpkMessages bm) @ executionOrder pblocks bms"
  by (simp add: executionOrder_def)

lemma executeBlocks_Inr:
  "executeBlocks g next current pblocks mb k bms (lg, emsgs, index) = (lg', Inr (emsgs', index')) \<Longrightarrow>
   k + length bms \<le> length pblocks \<Longrightarrow>
   \<exists>new. emsgs' = emsgs @ new \<and> map placed new = map carried (executionOrder (drop k pblocks) bms)
     \<and> map Index new = map (\<lambda>j. index + word_of_nat j) [0..<length new]
     \<and> index' = index + word_of_nat (length new)"
proof (induction bms arbitrary: k lg emsgs index)
  case Nil
  then show ?case by (simp add: executionOrder_def)
next
  case (Cons bm bms)
  let ?bh = "pblocks ! k"
  obtain lg1 res1 where r1:
    "appendExecuted g next current ?bh mb (BlsMessages bm) (lg, emsgs, index) = (lg1, res1)"
    by (metis surj_pair)
  from Cons.prems(1) r1 obtain emsgs1 index1 where res1: "res1 = Inr (emsgs1, index1)"
    by (cases res1) auto
  obtain lg2 res2 where r2:
    "appendExecuted g next current ?bh mb (SecpkMessages bm) (lg1, emsgs1, index1) = (lg2, res2)"
    by (metis surj_pair)
  from Cons.prems(1) r1 res1 r2 obtain emsgs2 index2 where res2: "res2 = Inr (emsgs2, index2)"
    by (cases res2) auto
  have a1: "appendExecuted g next current ?bh mb (BlsMessages bm) (lg, emsgs, index) = (lg1, Inr (emsgs1, index1))"
    using r1 res1 by simp
  have a2: "appendExecuted g next current ?bh mb (SecpkMessages bm) (lg1, emsgs1, index1) = (lg2, Inr (emsgs2, index2))"
    using r2 res2 by simp
  have a3: "executeBlocks g next current pblocks mb (Suc k) bms (lg2, emsgs2, index2) = (lg', Inr (emsgs', index'))"
    using Cons.prems(1) a1 a2 by simp
  from a1 obtain n1 where
    n1: "emsgs1 = emsgs @ n1" "map placed n1 = map (\<lambda>m. carried (?bh, m)) (BlsMessages bm)"
      "map Index n1 = map (\<lambda>k. index + word_of_nat k) [0..<length n1]"
      "index1 = index + word_of_nat (length n1)"
    by (rule appendExecuted_length)
  from a2 obtain n2 where
    n2: "emsgs2 = emsgs1 @ n2" "map placed n2 = map (\<lambda>m. carried (?bh, m)) (SecpkMessages bm)"
      "map Index n2 = map (\<lambda>k. index1 + word_of_nat k) [0..<length n2]"
      "index2 = index1 + word_of_nat (length n2)"
    by (rule appendExecuted_length)
  from Cons.prems(2) have le: "Suc k + length bms \<le> length pblocks" and lt: "k < length pblocks"
    by simp_all
  from Cons.IH[OF a3 le] obtain n3 where
    n3: "emsgs' = emsgs2 @ n3" "map placed n3 = map carried (executionOrder (drop (Suc k) pblocks) bms)"
      "map Index n3 = map (\<lambda>j. index2 + word_of_nat j) [0..<length n3]"
      "index' = index2 + word_of_nat (length n3)"
    by blast
  have dr: "drop k pblocks = ?bh # drop (Suc k) pblocks"
    using lt by (simp add: Cons_nth_drop_Suc)
  have e: "emsgs' = emsgs @ (n1 @ n2 @ n3)"
    using n1(1) n2(1) n3(1) by simp
  have p: "map placed (n1 @ n2 @ n3) = map carried (executionOrder (drop k pblocks) (bm # bms))"
    unfolding dr executionOrder_Cons using n1(2) n2(2) n3(2) by (simp add: o_def)
  have i12: "map Index (n1 @ n2) = map (\<lambda>j. index + word_of_nat j) [0..<length n1 + length n2]"
    unfolding index_range_append using n1(3,4) n2(3) by simp
  have i2: "index2 = index + word_of_nat (length n1 + length n2)"
    using n1(4) n2(4) by (simp add: add.assoc)
  have i: "map Index (n1 @ n2 @ n3) = map (\<lambda>j. index + word_of_nat j) [0..<length (n1 @ n2 @ n3)]"
  proof -
    have "map Index (n1 @ n2 @ n3) = map Index (n1 @ n2) @ map Index n3" by simp
    also have "\<dots> = map (\<lambda>j. index + word_of_nat j) [0..<(length n1 + length n2) + length n3]"
      unfolding index_range_append[of index "length n1 + length n2" "length n3"]
      using i12 n3(3) i2 by simp
    finally show ?thesis by (simp add: add.assoc)
  qed
  have x: "index' = index + word_of_nat (length (n1 @ n2 @ n3))"
    using n3(4) i2 by (simp add: add.assoc)
  from e p i x show ?case by blast
qed


lemma attachReceipts_keeps:
  "attachReceipts cs rs vmi pst ems = Inr ems' \<Longrightarrow>
     map placed ems' = map placed ems \<and> map Index ems' = map Index ems"
proof (induction ems arbitrary: ems')
  case Nil
  then show ?case by simp
next
  case (Cons em ems)
  from Cons.prems obtain rest' r g where
    "attachReceipts cs rs vmi pst ems = Inr rest'" and "ems' = em\<lparr>Receipt := Some r, GasOutputs := g\<rparr> # rest'"
    by (auto split: sum.splits option.splits)
  with Cons.IH[of rest'] show ?case by (simp add: placed_def)
qed

lemma unat_index_range:
  assumes "n \<le> 2 ^ 64"
  shows "map (\<lambda>j. unat (word_of_nat j :: 64 word)) [0..<n] = [0..<n]"
proof -
  have "unat (word_of_nat j :: 64 word) = j" if "j < n" for j
  proof -
    from that assms have "j < 2 ^ LENGTH(64)" by simp
    then show ?thesis by (simp only: unat_of_nat mod_less)
  qed
  then have "map (\<lambda>j. unat (word_of_nat j :: 64 word)) [0..<n] = map (\<lambda>j. j) [0..<n]"
    by (intro map_cong) auto
  then show ?thesis by simp
qed


lemma extracted_in_order:
  assumes run: "GetExecutedAndBlockMessagesForTipset cs next current = (lg, Inr tsm)"
    and bm: "BlockMsgsForTipset cs current = Inr bmsgs"
  shows "map placed (Executed tsm) = map carried (executionOrder (Blocks current) bmsgs)"
    and "map Index (Executed tsm) = map word_of_nat [0..<length (Executed tsm)]"
proof -
  from run bm obtain getCode messageBlocks emsgs index where
    len: "length bmsgs = length (Blocks current)" and
    ex: "executeBlocks getCode next current (Blocks current) messageBlocks 0 bmsgs ([], [], 0)
           = (lg, Inr (emsgs, index))" and
    jr: "joinReceipts cs next current emsgs = Inr tsm"
    by (auto simp: GetExecutedAndBlockMessagesForTipset_def Let_def
             split: if_splits sum.splits prod.splits)
  from executeBlocks_Inr[OF ex] len obtain new where
    n: "emsgs = [] @ new" "map placed new = map carried (executionOrder (drop 0 (Blocks current)) bmsgs)"
       "map Index new = map (\<lambda>j. 0 + word_of_nat j) [0..<length new]"
    by auto
  from jr obtain rs vmi pst emsgs' where
    at: "attachReceipts cs rs vmi pst emsgs = Inr emsgs'" and ex': "Executed tsm = emsgs'"
    by (auto simp: joinReceipts_def split: if_splits sum.splits)
  from attachReceipts_keeps[OF at] have
    k: "map placed emsgs' = map placed emsgs" "map Index emsgs' = map Index emsgs"
    by simp_all
  from k(1) have l: "length emsgs' = length emsgs" by (rule map_eq_imp_length_eq)
  show "map placed (Executed tsm) = map carried (executionOrder (Blocks current) bmsgs)"
    using ex' k(1) n(1,2) by simp
  show "map Index (Executed tsm) = map word_of_nat [0..<length (Executed tsm)]"
    using ex' k(2) l n(1,3) by simp
qed

text \<open>
  C1. When extraction succeeds, the executed messages are the messages of \<^verbatim>\<open>bmsgs\<close>
  block by block, each block's BLS messages before its Secp messages, each with the
  header of its block; and their \<open>Index\<close> fields are 0, 1, ..., n-1 in that order
  (as \<^verbatim>\<open>uint64\<close>, and as numbers whenever n fits in 64 bits).
\<close>

theorem executed_order_and_index:
  assumes run: "GetExecutedAndBlockMessagesForTipset cs next current = (lg, Inr tsm)"
    and bm: "BlockMsgsForTipset cs current = Inr bmsgs"
  shows "map placed (Executed tsm) = map carried (executionOrder (Blocks current) bmsgs)
       \<and> map Index (Executed tsm) = map word_of_nat [0..<length (Executed tsm)]
       \<and> (length (Executed tsm) \<le> 2 ^ 64 \<longrightarrow>
            map (\<lambda>em. unat (Index em)) (Executed tsm) = [0..<length (Executed tsm)])"
proof -
  note p1 = extracted_in_order(1)[OF run bm] and p2 = extracted_in_order(2)[OF run bm]
  have p3: "map (\<lambda>em. unat (Index em)) (Executed tsm) = [0..<length (Executed tsm)]"
    if "length (Executed tsm) \<le> 2 ^ 64"
  proof -
    have "map (\<lambda>em. unat (Index em)) (Executed tsm) = map unat (map Index (Executed tsm))"
      by (simp add: o_def)
    also have "\<dots> = map (\<lambda>j. unat (word_of_nat j :: 64 word)) [0..<length (Executed tsm)]"
      unfolding p2 by (simp add: o_def)
    finally show ?thesis using unat_index_range[OF that] by simp
  qed
  from p1 p2 p3 show ?thesis by blast
qed

theorem executed_order_and_index_witness:
  "snd (GetExecutedAndBlockMessagesForTipset demoStore demoChild demoParent) = Inr demoExtracted
   \<and> BlockMsgsForTipset demoStore demoParent = Inr demoBmsgs
   \<and> map placed (Executed demoExtracted) = map carried (executionOrder (Blocks demoParent) demoBmsgs)
   \<and> map ExecCid (Executed demoExtracted) = [''m1'', ''s2'', ''m3'']
   \<and> map Index (Executed demoExtracted) = [0, 1, 2]
   \<and> map (\<lambda>em. unat (Index em)) (Executed demoExtracted) = [0, 1, 2]"
proof -
  have r: "\<not> isl (snd (GetExecutedAndBlockMessagesForTipset demoStore demoChild demoParent))"
    by code_simp
  have out: "snd (GetExecutedAndBlockMessagesForTipset demoStore demoChild demoParent) = Inr demoExtracted"
    using r unfolding demoExtracted_def by simp
  have run: "GetExecutedAndBlockMessagesForTipset demoStore demoChild demoParent
      = (fst (GetExecutedAndBlockMessagesForTipset demoStore demoChild demoParent), Inr demoExtracted)"
    using out by (simp add: prod_eq_iff)
  have bm: "BlockMsgsForTipset demoStore demoParent = Inr demoBmsgs"
    by (simp add: demoStore_def)
  have n: "length (Executed demoExtracted) = 3"
    unfolding demoExtracted_def by code_simp
  have c: "map ExecCid (Executed demoExtracted) = [''m1'', ''s2'', ''m3'']"
    unfolding demoExtracted_def by code_simp
  have u: "[0..<3] = [0, 1, 2::nat]"
    by (simp add: upt_rec)
  from executed_order_and_index[OF run bm] out bm n c u show ?thesis
    by simp
qed

subsection \<open>Receipts and messages must line up\<close>

lemma length_executionOrder:
  "length pblocks = length bmsgs \<Longrightarrow> length (executionOrder pblocks bmsgs) = countMessages bmsgs"
  by (induction pblocks bmsgs rule: list_induct2) (simp_all add: executionOrder_def countMessages_def)

lemma extraction_succeeds_cases:
  assumes "GetExecutedAndBlockMessagesForTipset cs next current = (lg, Inr tsm)"
  obtains getCode messageBlocks bmsgs emsgs index where
    "MakeGetActorCodeFunc cs next current = Inr getCode"
    "BlockMsgsForTipset cs current = Inr bmsgs"
    "length bmsgs = length (Blocks current)"
    "executeBlocks getCode next current (Blocks current) messageBlocks 0 bmsgs ([], [], 0)
       = (lg, Inr (emsgs, index))"
    "joinReceipts cs next current emsgs = Inr tsm"
  using assms
  by (auto simp: GetExecutedAndBlockMessagesForTipset_def Let_def
           split: if_splits sum.splits prod.splits)

lemma joinReceipts_length:
  assumes "joinReceipts cs next current emsgs = Inr tsm"
  obtains rs where "AsArray cs (ParentMessageReceipts (Blocks next ! 0)) = Inr rs"
    "ArrLength rs = word_of_nat (length emsgs)"
  using assms by (auto simp: joinReceipts_def split: if_splits sum.splits)

text \<open>
  C2. When the receipts array read from the first block of the child tipset has a length
  other than the number of messages executed for the parent tipset, extraction returns
  an error: there is no result, so no list of executed messages either. (When every
  earlier step succeeds the error is the mismatch error of line 141, as in the example
  below.)
\<close>

theorem receipts_mismatch_is_error:
  assumes rs: "AsArray cs (ParentMessageReceipts (Blocks next ! 0)) = Inr rs"
    and bm: "BlockMsgsForTipset cs current = Inr bmsgs"
    and ne: "ArrLength rs \<noteq> word_of_nat (countMessages bmsgs)"
  shows "\<exists>err. snd (GetExecutedAndBlockMessagesForTipset cs next current) = Inl err"
proof (rule ccontr)
  assume "\<not> ?thesis"
  then obtain lg tsm where run: "GetExecutedAndBlockMessagesForTipset cs next current = (lg, Inr tsm)"
    by (metis surj_pair snd_conv sum.exhaust)
  from run obtain getCode messageBlocks bmsgs' emsgs index where
    "MakeGetActorCodeFunc cs next current = Inr getCode" and
    e: "BlockMsgsForTipset cs current = Inr bmsgs'"
       "length bmsgs' = length (Blocks current)"
       "executeBlocks getCode next current (Blocks current) messageBlocks 0 bmsgs' ([], [], 0)
          = (lg, Inr (emsgs, index))"
       "joinReceipts cs next current emsgs = Inr tsm"
    by (rule extraction_succeeds_cases)
  from e(1) bm have same: "bmsgs' = bmsgs" by simp
  from executeBlocks_Inr[OF e(3)] e(2) obtain new where
    n: "emsgs = [] @ new" "map placed new = map carried (executionOrder (drop 0 (Blocks current)) bmsgs')"
    by auto
  from n(2) have "length new = length (executionOrder (Blocks current) bmsgs')"
    using map_eq_imp_length_eq by fastforce
  with n(1) e(2) same have built: "length emsgs = countMessages bmsgs"
    by (simp add: length_executionOrder)
  from e(4) obtain rs' where
    "AsArray cs (ParentMessageReceipts (Blocks next ! 0)) = Inr rs'"
    "ArrLength rs' = word_of_nat (length emsgs)"
    by (rule joinReceipts_length)
  with rs built ne show False by simp
qed

theorem receipts_mismatch_is_error_witness:
  "AsArray demoShortStore (ParentMessageReceipts (Blocks demoChild ! 0)) = Inr demoShortReceipts
   \<and> BlockMsgsForTipset demoShortStore demoParent = Inr demoBmsgs
   \<and> ArrLength demoShortReceipts = 2 \<and> countMessages demoBmsgs = 3
   \<and> snd (GetExecutedAndBlockMessagesForTipset demoShortStore demoChild demoParent)
       = Inl (MismatchingReceipts 2 3)"
proof -
  have a: "AsArray demoShortStore (ParentMessageReceipts (Blocks demoChild ! 0)) = Inr demoShortReceipts"
    by (simp add: demoShortStore_def)
  have b: "BlockMsgsForTipset demoShortStore demoParent = Inr demoBmsgs"
    by (simp add: demoShortStore_def demoStore_def)
  have l: "ArrLength demoShortReceipts = 2"
    by (simp add: demoShortReceipts_def)
  have c: "countMessages demoBmsgs = 3"
    by code_simp
  have ne: "ArrLength demoShortReceipts \<noteq> word_of_nat (countMessages demoBmsgs)"
    unfolding l c by simp
  have r: "snd (GetExecutedAndBlockMessagesForTipset demoShortStore demoChild demoParent)
       = Inl (MismatchingReceipts 2 3)"
    by code_simp
  from receipts_mismatch_is_error[OF a b ne] a b l c r show ?thesis
    by simp
qed

subsection \<open>Resolving actor codes\<close>














section \<open>Properties of the multisig approvals task\<close>

subsection \<open>Which messages give a row\<close>

lemma methods_differ: "ProposeMethodNum \<noteq> ApproveMethodNum"
  by (simp add: ProposeMethodNum_def ApproveMethodNum_def)


lemma recordApproval_cases:
  "snd (recordApproval env ts pts m rcpt tx (errs, res)) = res
   \<or> (\<exists>row. recordApproval env ts pts m rcpt tx (errs, res) = (errs, res @ [row])
        \<and> ApprMessage row = ExecCid m \<and> ApprMultisigID row = To (Message m)
        \<and> ApprTransactionID row = tx_id tx \<and> ApprTo row = tx_to tx \<and> ApprValue row = tx_value tx)"
  by (simp add: recordApproval_def Let_def split: sum.splits)








subsection \<open>Approve messages read the state before the message\<close>

lemma findPendingTxn_None:
  "findPendingTxn wanted txns tx = None \<longleftrightarrow> tx = None \<and> wanted \<notin> fst ` set txns"
  by (induction wanted txns tx rule: findPendingTxn.induct) auto

lemma findPendingTxn_Some:
  "findPendingTxn wanted txns tx0 = Some tx \<Longrightarrow>
   tx0 = Some tx \<or>
   (\<exists>txn. (wanted, txn) \<in> set txns \<and> tx = \<lparr> tx_id = wanted, tx_to = TxnTo txn, tx_value = TxnValue txn \<rparr>)"
  by (induction wanted txns tx0 rule: findPendingTxn.induct) (auto split: if_splits)

lemma getTransactionIfApplied_approve:
  assumes ap: "Method msg = ApproveMethodNum"
    and ret: "UnmarshalApproveReturn env (Return rcpt) = Inr ret" and applied: "ApproveApplied ret"
    and par: "UnmarshalTxnIDParams env (Params msg) = Inr params"
    and act: "StateGetActor env (To msg) (Parents pts) = Inr act"
    and ld: "MultisigLoad env act = Inr prevActorState"
    and txs: "ForEachPendingTxn prevActorState = Inr txns"
  shows "getTransactionIfApplied env msg rcpt pts =
    (case findPendingTxn (ID params) txns None of
       None \<Rightarrow> Inl (PendingTxnNotFound (ID params))
     | Some tx \<Rightarrow> Inr (Some tx))"
  using assms methods_differ by (simp add: getTransactionIfApplied_def)

lemma ProcessMessages_finish:
  "ProcessMessages env ctxDone ts pts emsgs
     = finishReport pts (processAll env ctxDone ts pts 0 emsgs ([], []))"
  by (simp add: ProcessMessages_def finishReport_def)

lemma processAll_append:
  "processAll env ctxDone ts pts i (xs @ ys) st =
    (case processAll env ctxDone ts pts i xs st of
       Inl err \<Rightarrow> Inl err
     | Inr st' \<Rightarrow> processAll env ctxDone ts pts (i + length xs) ys st')"
proof (induction xs arbitrary: i st)
  case Nil
  then show ?case by simp
next
  case (Cons x xs)
  show ?case
  proof (cases "ctxDone i")
    case True
    then show ?thesis by simp
  next
    case False
    show ?thesis
    proof (cases "processMessage env ts pts x st")
      case (Inl err)
      with False show ?thesis by simp
    next
      case (Inr st1)
      with False Cons.IH[of "Suc i" st1] show ?thesis by (simp cong: sum.case_cong)
    qed
  qed
qed

lemma recordApproval_grows:
  "\<exists>more new. recordApproval env ts pts m rcpt tx (errs, res) = (errs @ more, res @ new)"
  by (simp add: recordApproval_def Let_def split: sum.splits)

lemma processMessage_grows:
  assumes "processMessage env ts pts m (errs, res) = Inr st'"
  shows "\<exists>more new. st' = (errs @ more, res @ new)"
proof -
  have same: "\<exists>more new. st' = (errs @ more, res @ new)" if "st' = (errs, res)"
  proof -
    from that have "st' = (errs @ [], res @ [])" by simp
    then show ?thesis by blast
  qed
  have failed: "\<exists>more new. st' = (errs @ more, res @ new)" if "st' = (errs @ [e], res)" for e
  proof -
    from that have "st' = (errs @ [e], res @ [])" by simp
    then show ?thesis by blast
  qed
  show ?thesis
  proof (cases "isMultisigActor env (ToActorCode m)")
    case False
    with assms have "st' = (errs, res)" by (simp add: processMessage_def)
    then show ?thesis by (rule same)
  next
    case ms: True
    from assms ms obtain rcpt where rc: "Receipt m = Some rcpt"
      by (cases "Receipt m") (simp_all add: processMessage_def)
    show ?thesis
    proof (cases "IsSuccess (ExitCode rcpt) \<and>
        (Method (Message m) = ProposeMethodNum \<or> Method (Message m) = ApproveMethodNum)")
      case False
      with assms ms rc have "st' = (errs, res)"
        by (auto simp: processMessage_def split: if_splits)
      then show ?thesis by (rule same)
    next
      case ok: True
      show ?thesis
      proof (cases "getTransactionIfApplied env (Message m) rcpt pts")
        case (Inl err)
        with assms ms rc ok have "st' = (errs @ [\<lparr> Addr = To (Message m),
            Error = Wrapped ''failed to find transaction'' err \<rparr>], res)"
          by (auto simp: processMessage_def)
        then show ?thesis by (rule failed)
      next
        case (Inr found)
        show ?thesis
        proof (cases found)
          case None
          with assms ms rc ok Inr have "st' = (errs, res)" by (auto simp: processMessage_def)
          then show ?thesis by (rule same)
        next
          case (Some tx)
          with assms ms rc ok Inr have "st' = recordApproval env ts pts m rcpt tx (errs, res)"
            by (auto simp: processMessage_def)
          with recordApproval_grows[of env ts pts m rcpt tx errs res] show ?thesis by simp
        qed
      qed
    qed
  qed
qed

lemma processAll_grows:
  "processAll env ctxDone ts pts i emsgs (errs, res) = Inr st' \<Longrightarrow>
   \<exists>more new. st' = (errs @ more, res @ new)"
proof (induction emsgs arbitrary: i errs res)
  case Nil
  then have "st' = (errs @ [], res @ [])" by simp
  then show ?case by blast
next
  case (Cons m rest)
  from Cons.prems obtain st1 where
    s: "processMessage env ts pts m (errs, res) = Inr st1" and
    r: "processAll env ctxDone ts pts (Suc i) rest st1 = Inr st'"
    by (auto split: if_splits sum.splits)
  from processMessage_grows[OF s] obtain more1 new1 where st1: "st1 = (errs @ more1, res @ new1)"
    by blast
  from Cons.IH[OF r[unfolded st1]] obtain more2 new2 where
    "st' = ((errs @ more1) @ more2, (res @ new1) @ new2)" by blast
  then have "st' = (errs @ (more1 @ more2), res @ (new1 @ new2))" by simp
  then show ?case by blast
qed

lemma ProcessMessages_step:
  assumes pre: "processAll env ctxDone ts pts 0 before ([], []) = Inr st"
    and go: "\<not> ctxDone (length before)"
    and step: "processMessage env ts pts m st = Inr st'"
  shows "ProcessMessages env ctxDone ts pts (before @ m # after)
     = finishReport pts (processAll env ctxDone ts pts (Suc (length before)) after st')"
  using assms by (simp add: ProcessMessages_finish processAll_append)

lemma findPendingTxn_distinct:
  assumes "distinct (map fst txns)" and "(wanted, txn) \<in> set txns"
  shows "findPendingTxn wanted txns None
     = Some \<lparr> tx_id = wanted, tx_to = TxnTo txn, tx_value = TxnValue txn \<rparr>"
proof -
  from assms(2) have "wanted \<in> fst ` set txns" by force
  then have "findPendingTxn wanted txns None \<noteq> None"
    by (simp add: findPendingTxn_None)
  then obtain tx where tx: "findPendingTxn wanted txns None = Some tx" by blast
  from findPendingTxn_Some[OF tx] obtain txn' where
    t: "(wanted, txn') \<in> set txns" "tx = \<lparr> tx_id = wanted, tx_to = TxnTo txn', tx_value = TxnValue txn' \<rparr>"
    by auto
  from assms t(1) have "txn = txn'" by (rule eq_key_imp_eq_value)
  with tx t(2) show ?thesis by simp
qed

text \<open>
  C5. For an Approve message to a multisig actor with a success receipt whose return
  value says applied, \<open>ProcessMessages\<close> looks the transaction up among the pending
  transactions of the actor's state at the parents of the parent tipset, under the id of
  the message parameters. The message \<open>m\<close> follows messages \<open>before\<close> that the loop
  got through with the detected errors \<open>errorsDetected\<close> and the rows \<open>results\<close>.

  When no pending transaction has the id, the lookup fails, the loop adds the error
  \<open>notFound\<close> for the message to the detected errors, adds no row, and goes on with the
  messages that remain; the report \<open>ProcessMessages\<close> returns then lists \<open>notFound\<close>
  among its \<open>ErrorsDetected\<close>, whatever the later messages do.

  When the id is pending there, under one entry, and the state after the message can be
  read, \<open>ProcessMessages\<close> appends the row whose transaction id is the id of the
  parameters and whose recipient and value are those of that pending transaction, and
  goes on. In every case a row that \<open>ProcessMessages\<close> returns for the message carries
  the id, the recipient and the value of a transaction pending under that id at that
  state, and the CID of the message.
\<close>

theorem approve_reads_pending_before_message:
  assumes ms: "isMultisigActor env (ToActorCode m)"
    and rc: "Receipt m = Some rcpt" and ok: "IsSuccess (ExitCode rcpt)"
    and ap: "Method (Message m) = ApproveMethodNum"
    and ret: "UnmarshalApproveReturn env (Return rcpt) = Inr ret" and applied: "ApproveApplied ret"
    and par: "UnmarshalTxnIDParams env (Params (Message m)) = Inr params"
    and act: "StateGetActor env (To (Message m)) (Parents pts) = Inr act"
    and ld: "MultisigLoad env act = Inr prevActorState"
    and txs: "ForEachPendingTxn prevActorState = Inr txns"
    and pre: "processAll env ctxDone ts pts 0 before ([], []) = Inr (errorsDetected, results)"
    and go: "\<not> ctxDone (length before)"
    and notFound: "notFound = \<lparr> Addr = To (Message m),
          Error = Wrapped ''failed to find transaction'' (PendingTxnNotFound (ID params)) \<rparr>"
  shows "(getTransactionIfApplied env (Message m) rcpt pts = Inr (Some tx) \<longrightarrow>
           (\<exists>txn. (ID params, txn) \<in> set txns
              \<and> tx = \<lparr> tx_id = ID params, tx_to = TxnTo txn, tx_value = TxnValue txn \<rparr>))
       \<and> (ID params \<in> fst ` set txns \<longrightarrow>
           (\<exists>found. getTransactionIfApplied env (Message m) rcpt pts = Inr (Some found)))
       \<and> (ID params \<notin> fst ` set txns \<longrightarrow>
           getTransactionIfApplied env (Message m) rcpt pts = Inl (PendingTxnNotFound (ID params))
           \<and> processMessage env ts pts m (errs, res) = Inr (errs @ [notFound], res)
           \<and> (\<not> ctxDone i \<longrightarrow>
                processAll env ctxDone ts pts i (m # rest) (errs, res)
                  = processAll env ctxDone ts pts (Suc i) rest (errs @ [notFound], res))
           \<and> ProcessMessages env ctxDone ts pts (before @ m # rest)
               = finishReport pts (processAll env ctxDone ts pts (Suc (length before)) rest
                   (errorsDetected @ [notFound], results))
           \<and> ProcessMessages env ctxDone ts pts (before @ [m])
               = Inr (results, \<lparr> ReportHeight = Height pts, ReportStateRoot = ParentState pts,
                                 ErrorsDetected = Some (errorsDetected @ [notFound]) \<rparr>)
           \<and> (ProcessMessages env ctxDone ts pts (before @ m # rest) = Inr (rows, report) \<longrightarrow>
                (\<exists>detected. ErrorsDetected report = Some detected \<and> notFound \<in> set detected)))
       \<and> (distinct (map fst txns) \<and> (ID params, txn) \<in> set txns
           \<and> StateGetActor env (To (Message m)) (Key ts) = Inr nextActor
           \<and> MultisigLoad env nextActor = Inr actorState
           \<and> InitialBalance actorState = Inr ib \<and> Threshold actorState = Inr threshold
           \<and> Signers actorState = Inr signers
           \<and> approval = \<lparr> ApprHeight = Height pts, ApprStateRoot = ParentState pts,
                  ApprMultisigID = To (Message m), ApprMessage = ExecCid m,
                  ApprMethod = Method (Message m), ApprApprover = From (Message m),
                  ApprThreshold = threshold, ApprInitialBalance = ib,
                  ApprGasUsed = GasUsed rcpt, ApprTransactionID = ID params,
                  ApprTo = TxnTo txn, ApprValue = TxnValue txn, ApprSigners = signers \<rparr> \<longrightarrow>
           ProcessMessages env ctxDone ts pts (before @ m # rest)
               = finishReport pts (processAll env ctxDone ts pts (Suc (length before)) rest
                   (errorsDetected, results @ [approval]))
           \<and> ProcessMessages env ctxDone ts pts (before @ [m])
               = Inr (results @ [approval],
                      \<lparr> ReportHeight = Height pts, ReportStateRoot = ParentState pts,
                        ErrorsDetected = (if errorsDetected \<noteq> [] then Some errorsDetected else None) \<rparr>))
       \<and> (ProcessMessages env ctxDone ts pts (before @ [m]) = Inr (rows, report) \<longrightarrow>
           rows = results
           \<or> (\<exists>row txn. rows = results @ [row] \<and> (ID params, txn) \<in> set txns
                \<and> ApprTransactionID row = ID params \<and> ApprTo row = TxnTo txn
                \<and> ApprValue row = TxnValue txn \<and> ApprMessage row = ExecCid m))"
proof -
  note g = getTransactionIfApplied_approve[OF ap ret applied par act ld txs]
  have last: "ProcessMessages env ctxDone ts pts (before @ [m]) = finishReport pts (Inr st)"
    if "processMessage env ts pts m (errorsDetected, results) = Inr st" for st
    using ProcessMessages_step[OF pre go that, of "[]"] by simp
  have p1: "\<exists>txn. (ID params, txn) \<in> set txns
              \<and> t = \<lparr> tx_id = ID params, tx_to = TxnTo txn, tx_value = TxnValue txn \<rparr>"
    if "getTransactionIfApplied env (Message m) rcpt pts = Inr (Some t)" for t
  proof -
    from that g have "findPendingTxn (ID params) txns None = Some t"
      by (simp split: option.splits)
    from findPendingTxn_Some[OF this] show ?thesis by simp
  qed
  have p2: "\<exists>found. getTransactionIfApplied env (Message m) rcpt pts = Inr (Some found)"
    if "ID params \<in> fst ` set txns"
  proof -
    from that have "findPendingTxn (ID params) txns None \<noteq> None"
      by (simp add: findPendingTxn_None)
    with g show ?thesis by (auto split: option.splits)
  qed
  have p3: "getTransactionIfApplied env (Message m) rcpt pts = Inl (PendingTxnNotFound (ID params))"
    if "ID params \<notin> fst ` set txns"
  proof -
    from that have "findPendingTxn (ID params) txns None = None"
      by (simp add: findPendingTxn_None)
    with g show ?thesis by simp
  qed
  have p4: "processMessage env ts pts m (e, r) = Inr (e @ [notFound], r)"
    if "ID params \<notin> fst ` set txns" for e r
    using p3[OF that] ms rc ok ap notFound by (simp add: processMessage_def)
  have p5: "processAll env ctxDone ts pts i (m # rest) (errs, res)
                  = processAll env ctxDone ts pts (Suc i) rest (errs @ [notFound], res)"
    if "ID params \<notin> fst ` set txns" "\<not> ctxDone i"
    using p4[OF that(1)] that(2) by simp
  have p6: "ProcessMessages env ctxDone ts pts (before @ m # rest)
               = finishReport pts (processAll env ctxDone ts pts (Suc (length before)) rest
                   (errorsDetected @ [notFound], results))"
    if "ID params \<notin> fst ` set txns"
    using ProcessMessages_step[OF pre go p4[OF that]] .
  have p7: "ProcessMessages env ctxDone ts pts (before @ [m])
               = Inr (results, \<lparr> ReportHeight = Height pts, ReportStateRoot = ParentState pts,
                                 ErrorsDetected = Some (errorsDetected @ [notFound]) \<rparr>)"
    if "ID params \<notin> fst ` set txns"
    using last[OF p4[OF that]] by (simp add: finishReport_def)
  have p8: "\<exists>detected. ErrorsDetected report = Some detected \<and> notFound \<in> set detected"
    if nf: "ID params \<notin> fst ` set txns"
      and run: "ProcessMessages env ctxDone ts pts (before @ m # rest) = Inr (rows, report)"
  proof -
    from run p6[OF nf] obtain st where
      st: "processAll env ctxDone ts pts (Suc (length before)) rest
             (errorsDetected @ [notFound], results) = Inr st"
      and fin: "finishReport pts (Inr st) = Inr (rows, report)"
      by (cases "processAll env ctxDone ts pts (Suc (length before)) rest
             (errorsDetected @ [notFound], results)") (simp_all add: finishReport_def)
    from processAll_grows[OF st] obtain more new where
      "st = ((errorsDetected @ [notFound]) @ more, results @ new)" by blast
    with fin have "ErrorsDetected report = Some ((errorsDetected @ [notFound]) @ more)"
      by (auto simp: finishReport_def)
    then show ?thesis by auto
  qed
  have p9: "ProcessMessages env ctxDone ts pts (before @ m # rest)
               = finishReport pts (processAll env ctxDone ts pts (Suc (length before)) rest
                   (errorsDetected, results @ [approval]))
           \<and> ProcessMessages env ctxDone ts pts (before @ [m])
               = Inr (results @ [approval],
                      \<lparr> ReportHeight = Height pts, ReportStateRoot = ParentState pts,
                        ErrorsDetected = (if errorsDetected \<noteq> [] then Some errorsDetected else None) \<rparr>)"
    if h: "distinct (map fst txns) \<and> (ID params, txn) \<in> set txns
           \<and> StateGetActor env (To (Message m)) (Key ts) = Inr nextActor
           \<and> MultisigLoad env nextActor = Inr actorState
           \<and> InitialBalance actorState = Inr ib \<and> Threshold actorState = Inr threshold
           \<and> Signers actorState = Inr signers
           \<and> approval = \<lparr> ApprHeight = Height pts, ApprStateRoot = ParentState pts,
                  ApprMultisigID = To (Message m), ApprMessage = ExecCid m,
                  ApprMethod = Method (Message m), ApprApprover = From (Message m),
                  ApprThreshold = threshold, ApprInitialBalance = ib,
                  ApprGasUsed = GasUsed rcpt, ApprTransactionID = ID params,
                  ApprTo = TxnTo txn, ApprValue = TxnValue txn, ApprSigners = signers \<rparr>"
  proof -
    let ?tx = "\<lparr> tx_id = ID params, tx_to = TxnTo txn, tx_value = TxnValue txn \<rparr>"
    from h have "findPendingTxn (ID params) txns None = Some ?tx"
      by (simp add: findPendingTxn_distinct)
    with g have gt: "getTransactionIfApplied env (Message m) rcpt pts = Inr (Some ?tx)"
      by simp
    from h have "recordApproval env ts pts m rcpt ?tx (errorsDetected, results)
        = (errorsDetected, results @ [approval])"
      by (simp add: recordApproval_def)
    with gt ms rc ok ap have step:
      "processMessage env ts pts m (errorsDetected, results) = Inr (errorsDetected, results @ [approval])"
      by (simp add: processMessage_def)
    from ProcessMessages_step[OF pre go step, of rest] last[OF step] show ?thesis
      by (simp add: finishReport_def)
  qed
  have p10: "rows = results
           \<or> (\<exists>row txn. rows = results @ [row] \<and> (ID params, txn) \<in> set txns
                \<and> ApprTransactionID row = ID params \<and> ApprTo row = TxnTo txn
                \<and> ApprValue row = TxnValue txn \<and> ApprMessage row = ExecCid m)"
    if run: "ProcessMessages env ctxDone ts pts (before @ [m]) = Inr (rows, report)"
  proof (cases "ID params \<in> fst ` set txns")
    case False
    with p7 run show ?thesis by simp
  next
    case True
    from p2[OF True] obtain t where t: "getTransactionIfApplied env (Message m) rcpt pts = Inr (Some t)"
      by blast
    from p1[OF t] obtain txn' where
      tx: "(ID params, txn') \<in> set txns"
          "t = \<lparr> tx_id = ID params, tx_to = TxnTo txn', tx_value = TxnValue txn' \<rparr>"
      by blast
    from t ms rc ok ap have step: "processMessage env ts pts m (errorsDetected, results)
        = Inr (recordApproval env ts pts m rcpt t (errorsDetected, results))"
      by (simp add: processMessage_def)
    from last[OF step] run have rows: "rows = snd (recordApproval env ts pts m rcpt t (errorsDetected, results))"
      by (auto simp: finishReport_def split: prod.splits)
    from recordApproval_cases[of env ts pts m rcpt t errorsDetected results] rows tx
    show ?thesis by auto
  qed
  from p1[of tx] p2 p3 p4[of errs res] p5 p6 p7 p8 p9 p10 show ?thesis by blast
qed

theorem approve_reads_pending_before_message_witness:
  "ProcessMessages demoEnv demoNever demoChild demoParent [demoApproveGone]
     = Inr ([], \<lparr> ReportHeight = Height demoParent, ReportStateRoot = ParentState demoParent,
                  ErrorsDetected = Some [\<lparr> Addr = ''f0101'',
                     Error = Wrapped ''failed to find transaction'' (PendingTxnNotFound 9) \<rparr>] \<rparr>)
   \<and> ProcessMessages demoEnv demoNever demoChild demoParent [demoApproveGone, demoApprove]
     = Inr ([\<lparr> ApprHeight = Height demoParent, ApprStateRoot = ParentState demoParent,
               ApprMultisigID = ''f0101'', ApprMessage = ''a1'', ApprMethod = 3,
               ApprApprover = ''f0100'', ApprThreshold = 2, ApprInitialBalance = ''0'',
               ApprGasUsed = 50, ApprTransactionID = 7, ApprTo = ''f0200'', ApprValue = ''100'',
               ApprSigners = [''f0100'', ''f0102''] \<rparr>],
            \<lparr> ReportHeight = Height demoParent, ReportStateRoot = ParentState demoParent,
              ErrorsDetected = Some [\<lparr> Addr = ''f0101'',
                 Error = Wrapped ''failed to find transaction'' (PendingTxnNotFound 9) \<rparr>] \<rparr>)
   \<and> getTransactionIfApplied demoEnv (Message demoApprove) (the (Receipt demoApprove)) demoParent
     = Inr (Some \<lparr> tx_id = 7, tx_to = ''f0200'', tx_value = ''100'' \<rparr>)
   \<and> getTransactionIfApplied demoEnv (Message demoApproveGone) (the (Receipt demoApproveGone)) demoParent
     = Inl (PendingTxnNotFound 9)"
proof -
  let ?gone = "the (Receipt demoApproveGone)"
  let ?rcpt = "the (Receipt demoApprove)"
  let ?act = "\<lparr> Code = ''multisig'', Head = ''before'' \<rparr>"
  let ?next = "\<lparr> Code = ''multisig'', Head = ''after'' \<rparr>"
  let ?t5 = "\<lparr> TxnTo = ''f0300'', TxnValue = ''1'' \<rparr>"
  let ?t7 = "\<lparr> TxnTo = ''f0200'', TxnValue = ''100'' \<rparr>"
  let ?txns = "[(5::int, ?t5), (7, ?t7)]"
  let ?E = "\<lparr> Addr = ''f0101'', Error = Wrapped ''failed to find transaction'' (PendingTxnNotFound 9) \<rparr>"
  let ?row = "\<lparr> ApprHeight = Height demoParent, ApprStateRoot = ParentState demoParent,
               ApprMultisigID = ''f0101'', ApprMessage = ''a1'', ApprMethod = 3,
               ApprApprover = ''f0100'', ApprThreshold = 2, ApprInitialBalance = ''0'',
               ApprGasUsed = 50, ApprTransactionID = 7, ApprTo = ''f0200'', ApprValue = ''100'',
               ApprSigners = [''f0100'', ''f0102''] \<rparr>"
  have ld: "MultisigLoad demoEnv ?act = Inr demoMsigBefore"
    by (simp add: demoEnv_def)
  have txs: "ForEachPendingTxn demoMsigBefore = Inr ?txns"
    by (simp add: demoMsigBefore_def)
  have g1: "isMultisigActor demoEnv (ToActorCode demoApproveGone)"
    and g2: "Receipt demoApproveGone = Some ?gone"
    and g3: "IsSuccess (ExitCode ?gone)"
    and g4: "Method (Message demoApproveGone) = ApproveMethodNum"
    and g5: "UnmarshalApproveReturn demoEnv (Return ?gone) = Inr \<lparr> ApproveApplied = True \<rparr>"
    and g6: "UnmarshalTxnIDParams demoEnv (Params (Message demoApproveGone)) = Inr \<lparr> ID = 9 \<rparr>"
    and g7: "StateGetActor demoEnv (To (Message demoApproveGone)) (Parents demoParent) = Inr ?act"
    by code_simp+
  have a1: "isMultisigActor demoEnv (ToActorCode demoApprove)"
    and a2: "Receipt demoApprove = Some ?rcpt"
    and a3: "IsSuccess (ExitCode ?rcpt)"
    and a4: "Method (Message demoApprove) = ApproveMethodNum"
    and a5: "UnmarshalApproveReturn demoEnv (Return ?rcpt) = Inr \<lparr> ApproveApplied = True \<rparr>"
    and a6: "UnmarshalTxnIDParams demoEnv (Params (Message demoApprove)) = Inr \<lparr> ID = 7 \<rparr>"
    and a7: "StateGetActor demoEnv (To (Message demoApprove)) (Parents demoParent) = Inr ?act"
    by code_simp+
  have ap: "ApproveApplied \<lparr> ApproveApplied = True \<rparr>"
    by simp
  have pre0: "processAll demoEnv demoNever demoChild demoParent 0 [] ([], []) = Inr ([], [])"
    by simp
  have go0: "\<not> demoNever (length ([] :: executed_message list))"
    and go1: "\<not> demoNever (length [demoApproveGone])"
    by (simp_all add: demoNever_def)
  have toG: "To (Message demoApproveGone) = ''f0101''"
    by code_simp
  have nf: "?E = \<lparr> Addr = To (Message demoApproveGone),
          Error = Wrapped ''failed to find transaction'' (PendingTxnNotFound (ID \<lparr> ID = 9 \<rparr>)) \<rparr>"
    by (simp add: toG)
  have absent: "ID \<lparr> ID = 9 \<rparr> \<notin> fst ` set ?txns"
    by simp
  note gone = approve_reads_pending_before_message[OF g1 g2 g3 g4 g5 ap g6 g7 ld txs pre0 go0 nf,
      where rest = "[]" and errs = "[]" and res = "[]" and i = 0,
      THEN conjunct2, THEN conjunct2, THEN conjunct1, rule_format, OF absent]
  from gone[THEN conjunct2, THEN conjunct2, THEN conjunct2, THEN conjunct2, THEN conjunct1]
  have w1: "ProcessMessages demoEnv demoNever demoChild demoParent [demoApproveGone]
     = Inr ([], \<lparr> ReportHeight = Height demoParent, ReportStateRoot = ParentState demoParent,
                  ErrorsDetected = Some [?E] \<rparr>)"
    by simp
  from gone[THEN conjunct1]
  have w4: "getTransactionIfApplied demoEnv (Message demoApproveGone) ?gone demoParent
     = Inl (PendingTxnNotFound 9)"
    by simp
  from gone[THEN conjunct2, THEN conjunct1]
  have "processMessage demoEnv demoChild demoParent demoApproveGone ([], []) = Inr ([?E], [])"
    by simp
  then have pre1: "processAll demoEnv demoNever demoChild demoParent 0 [demoApproveGone] ([], []) = Inr ([?E], [])"
    by (simp add: demoNever_def)
  have nf7: "\<lparr> Addr = To (Message demoApprove),
          Error = Wrapped ''failed to find transaction'' (PendingTxnNotFound (ID \<lparr> ID = 7 \<rparr>)) \<rparr>
      = \<lparr> Addr = To (Message demoApprove),
          Error = Wrapped ''failed to find transaction'' (PendingTxnNotFound (ID \<lparr> ID = 7 \<rparr>)) \<rparr>"
    by simp
  have post: "StateGetActor demoEnv (To (Message demoApprove)) (Key demoChild) = Inr ?next"
    by code_simp
  have ldn: "MultisigLoad demoEnv ?next = Inr demoMsigAfter"
    by (simp add: demoEnv_def)
  have st: "InitialBalance demoMsigAfter = Inr ''0''" "Threshold demoMsigAfter = Inr 2"
      "Signers demoMsigAfter = Inr [''f0100'', ''f0102'']"
    by (simp_all add: demoMsigAfter_def)
  have row: "?row = \<lparr> ApprHeight = Height demoParent, ApprStateRoot = ParentState demoParent,
                  ApprMultisigID = To (Message demoApprove), ApprMessage = ExecCid demoApprove,
                  ApprMethod = Method (Message demoApprove), ApprApprover = From (Message demoApprove),
                  ApprThreshold = 2, ApprInitialBalance = ''0'',
                  ApprGasUsed = GasUsed ?rcpt, ApprTransactionID = ID \<lparr> ID = 7 \<rparr>,
                  ApprTo = TxnTo ?t7, ApprValue = TxnValue ?t7, ApprSigners = [''f0100'', ''f0102''] \<rparr>"
    by (simp add: demoApprove_def demoExec_def)
  have present: "distinct (map fst ?txns)" "(ID \<lparr> ID = 7 \<rparr>, ?t7) \<in> set ?txns"
    by simp_all
  from present post ldn st row
  have hyp: "distinct (map fst ?txns) \<and> (ID \<lparr> ID = 7 \<rparr>, ?t7) \<in> set ?txns
           \<and> StateGetActor demoEnv (To (Message demoApprove)) (Key demoChild) = Inr ?next
           \<and> MultisigLoad demoEnv ?next = Inr demoMsigAfter
           \<and> InitialBalance demoMsigAfter = Inr ''0'' \<and> Threshold demoMsigAfter = Inr 2
           \<and> Signers demoMsigAfter = Inr [''f0100'', ''f0102'']
           \<and> ?row = \<lparr> ApprHeight = Height demoParent, ApprStateRoot = ParentState demoParent,
                  ApprMultisigID = To (Message demoApprove), ApprMessage = ExecCid demoApprove,
                  ApprMethod = Method (Message demoApprove), ApprApprover = From (Message demoApprove),
                  ApprThreshold = 2, ApprInitialBalance = ''0'',
                  ApprGasUsed = GasUsed ?rcpt, ApprTransactionID = ID \<lparr> ID = 7 \<rparr>,
                  ApprTo = TxnTo ?t7, ApprValue = TxnValue ?t7, ApprSigners = [''f0100'', ''f0102''] \<rparr>"
    by blast
  note found = approve_reads_pending_before_message[OF a1 a2 a3 a4 a5 ap a6 a7 ld txs pre1 go1 nf7,
      where rest = "[]" and txn = ?t7 and nextActor = ?next and actorState = demoMsigAfter
        and ib = "''0''" and threshold = 2 and signers = "[''f0100'', ''f0102'']"
        and approval = ?row,
      THEN conjunct2, THEN conjunct2, THEN conjunct2, THEN conjunct1, rule_format, OF hyp]
  from found[THEN conjunct2]
  have w2: "ProcessMessages demoEnv demoNever demoChild demoParent [demoApproveGone, demoApprove]
     = Inr ([?row], \<lparr> ReportHeight = Height demoParent, ReportStateRoot = ParentState demoParent,
              ErrorsDetected = Some [?E] \<rparr>)"
    by simp
  have w3: "getTransactionIfApplied demoEnv (Message demoApprove) ?rcpt demoParent
     = Inr (Some \<lparr> tx_id = 7, tx_to = ''f0200'', tx_value = ''100'' \<rparr>)"
    by code_simp
  from w1 w2 w3 w4 show ?thesis by blast
qed

section \<open>Properties of the persistence layer\<close>

subsection \<open>Upsert statements\<close>

text \<open>The written-out \<^verbatim>\<open>GenerateUpsertStrings\<close> passes \<^verbatim>\<open>TestUpsertSQLGeneration\<close>.\<close>

lemma TestUpsertSQLGeneration:
  "GenerateUpsertStrings TestingUpsertStruct = (''(cid, height, state_root) DO UPDATE'', ExpectedUpsertStatement)"
  by code_simp

lemma sort_same_mset:
  fixes xs ys :: "string list"
  assumes "mset xs = mset ys"
  shows "sort xs = sort ys"
proof -
  have "mset (sort ys) = mset xs" using assms by simp
  then show ?thesis by (rule properties_for_sort) simp
qed

lemma conflictColumns_mset:
  "mset flds' = mset flds \<Longrightarrow> conflictColumns flds' = conflictColumns flds"
  unfolding conflictColumns_def
  by (intro sort_same_mset) simp

lemma updateColumns_mset:
  "mset flds' = mset flds \<Longrightarrow> updateColumns flds' = updateColumns flds"
  unfolding updateColumns_def
  by (intro sort_same_mset) simp

lemma GenerateUpsertStrings_mset:
  "mset flds' = mset flds \<Longrightarrow> GenerateUpsertStrings flds' = GenerateUpsertStrings flds"
  using conflictColumns_mset[of flds' flds] updateColumns_mset[of flds' flds]
  by (simp add: GenerateUpsertStrings_def)

lemma GenerateUpsertStrings_unignored:
  "GenerateUpsertStrings (filter (\<lambda>f. \<not> Ignored f) flds) = GenerateUpsertStrings flds"
proof -
  have "filter (\<lambda>f. PK f \<and> \<not> Ignored f) (filter (\<lambda>f. \<not> Ignored f) flds)
      = filter (\<lambda>f. PK f \<and> \<not> Ignored f) flds"
    by (induction flds) auto
  moreover have "filter (\<lambda>f. \<not> PK f \<and> \<not> Ignored f) (filter (\<lambda>f. \<not> Ignored f) flds)
      = filter (\<lambda>f. \<not> PK f \<and> \<not> Ignored f) flds"
    by (induction flds) auto
  ultimately show ?thesis
    by (simp add: GenerateUpsertStrings_def conflictColumns_def updateColumns_def)
qed

text \<open>
  For the primary key a, b, c and the other columns x, y, z the update clause has a
  space on each side of every equals sign, as the expected statement of the test has;
  it is not the clause property P5 of the specification prints.
\<close>

theorem upsert_clause_spacing_counterexample:
  "GenerateUpsertStrings [keyColumn ''a'', keyColumn ''b'', keyColumn ''c'',
                          plainColumn ''x'', plainColumn ''y'', plainColumn ''z'']
     = (''(a, b, c) DO UPDATE'', codeUpdateClauseXYZ)
   \<and> codeUpdateClauseXYZ \<noteq> specUpdateClauseXYZ"
  by code_simp

text \<open>
  C6, as the tests have it. The generated upsert SQL is deterministic: the conflict
  clause lists exactly the declared primary-key columns in ascending order, the update
  clause lists exactly the columns that are neither in the key nor ignored in ascending
  order, each as \<^verbatim>\<open>"col" = EXCLUDED.col\<close>, and neither depends on the order in which the
  fields are declared. For a model with the key a, b, c and the other columns x, y, z
  the conflict clause is \<^verbatim>\<open>(a, b, c) DO UPDATE\<close> and the update clause is
  \<^verbatim>\<open>"x" = EXCLUDED.x, "y" = EXCLUDED.y, "z" = EXCLUDED.z\<close>.
\<close>

theorem upsert_sql_generation:
  "sorted (conflictColumns flds)
   \<and> set (conflictColumns flds) = SQLName ` {f \<in> set flds. PK f \<and> \<not> Ignored f}
   \<and> sorted (updateColumns flds)
   \<and> set (updateColumns flds) = SQLName ` {f \<in> set flds. \<not> PK f \<and> \<not> Ignored f}
   \<and> GenerateUpsertStrings flds
       = (''('' @ joinWith '', '' (conflictColumns flds) @ '') DO UPDATE'',
          joinWith '', '' (map assignExcluded (updateColumns flds)))
   \<and> (mset flds' = mset flds \<longrightarrow> GenerateUpsertStrings flds' = GenerateUpsertStrings flds)
   \<and> (mset (filter (\<lambda>f. \<not> Ignored f) flds)
         = mset [keyColumn ''a'', keyColumn ''b'', keyColumn ''c'',
                 plainColumn ''x'', plainColumn ''y'', plainColumn ''z''] \<longrightarrow>
        GenerateUpsertStrings flds = (''(a, b, c) DO UPDATE'', codeUpdateClauseXYZ))"
proof -
  have p1: "sorted (conflictColumns flds)" and p3: "sorted (updateColumns flds)"
    by (simp_all add: conflictColumns_def updateColumns_def)
  have p2: "set (conflictColumns flds) = SQLName ` {f \<in> set flds. PK f \<and> \<not> Ignored f}"
    by (simp add: conflictColumns_def)
  have p4: "set (updateColumns flds) = SQLName ` {f \<in> set flds. \<not> PK f \<and> \<not> Ignored f}"
    by (simp add: updateColumns_def)
  have p5: "GenerateUpsertStrings flds
       = (''('' @ joinWith '', '' (conflictColumns flds) @ '') DO UPDATE'',
          joinWith '', '' (map assignExcluded (updateColumns flds)))"
    by (simp add: GenerateUpsertStrings_def)
  have p6: "GenerateUpsertStrings flds' = GenerateUpsertStrings flds" if "mset flds' = mset flds"
    using that by (rule GenerateUpsertStrings_mset)
  have p7: "GenerateUpsertStrings flds = (''(a, b, c) DO UPDATE'', codeUpdateClauseXYZ)"
    if "mset (filter (\<lambda>f. \<not> Ignored f) flds)
         = mset [keyColumn ''a'', keyColumn ''b'', keyColumn ''c'',
                 plainColumn ''x'', plainColumn ''y'', plainColumn ''z'']"
  proof -
    have "GenerateUpsertStrings flds = GenerateUpsertStrings (filter (\<lambda>f. \<not> Ignored f) flds)"
      by (simp only: GenerateUpsertStrings_unignored)
    also have "\<dots> = GenerateUpsertStrings [keyColumn ''a'', keyColumn ''b'', keyColumn ''c'',
                 plainColumn ''x'', plainColumn ''y'', plainColumn ''z'']"
      using that by (rule GenerateUpsertStrings_mset)
    also have "\<dots> = (''(a, b, c) DO UPDATE'', codeUpdateClauseXYZ)"
      by code_simp
    finally show ?thesis .
  qed
  from p1 p2 p3 p4 p5 p6 p7 show ?thesis by blast
qed

theorem upsert_sql_generation_witness:
  "GenerateUpsertStrings [plainColumn ''z'', keyColumn ''b'', plainColumn ''x'',
                          \<lparr> SQLName = ''skipped'', PK = False, Ignored = True, Introduced = 0 \<rparr>,
                          keyColumn ''c'', keyColumn ''a'', plainColumn ''y'']
     = (''(a, b, c) DO UPDATE'', codeUpdateClauseXYZ)
   \<and> GenerateUpsertStrings (rev TestingUpsertStruct) = GenerateUpsertStrings TestingUpsertStruct
   \<and> conflictColumns TestingUpsertStruct = [''cid'', ''height'', ''state_root'']
   \<and> updateColumns TestingUpsertStruct = [''camel_case'', ''heads'', ''knees'', ''shoulders'', ''toes'']"
proof -
  let ?shuffled = "[plainColumn ''z'', keyColumn ''b'', plainColumn ''x'',
                          \<lparr> SQLName = ''skipped'', PK = False, Ignored = True, Introduced = 0 \<rparr>,
                          keyColumn ''c'', keyColumn ''a'', plainColumn ''y'']"
  have f: "filter (\<lambda>f. \<not> Ignored f) ?shuffled
      = [plainColumn ''z'', keyColumn ''b'', plainColumn ''x'', keyColumn ''c'', keyColumn ''a'', plainColumn ''y'']"
    by (simp add: plainColumn_def keyColumn_def)
  have m: "mset (filter (\<lambda>f. \<not> Ignored f) ?shuffled)
         = mset [keyColumn ''a'', keyColumn ''b'', keyColumn ''c'',
                 plainColumn ''x'', plainColumn ''y'', plainColumn ''z'']"
    unfolding f by (simp add: ac_simps)
  have r: "mset (rev TestingUpsertStruct) = mset TestingUpsertStruct"
    by simp
  from upsert_sql_generation[of ?shuffled] m have w1:
    "GenerateUpsertStrings ?shuffled = (''(a, b, c) DO UPDATE'', codeUpdateClauseXYZ)"
    by blast
  from upsert_sql_generation[of TestingUpsertStruct "rev TestingUpsertStruct"] r have w2:
    "GenerateUpsertStrings (rev TestingUpsertStruct) = GenerateUpsertStrings TestingUpsertStruct"
    by blast
  have w3: "conflictColumns TestingUpsertStruct = [''cid'', ''height'', ''state_root'']"
    by code_simp
  have w4: "updateColumns TestingUpsertStruct = [''camel_case'', ''heads'', ''knees'', ''shoulders'', ''toes'']"
    by code_simp
  from w1 w2 w3 w4 show ?thesis by blast
qed

subsection \<open>Names\<close>

text \<open>
  C9. Building the database handle with a reporter name and a schema name of at most 63
  bytes succeeds (for a URL that parses), and a name or a schema name of 64 bytes, or
  of any length over 63, is rejected with the name-too-long error. These are the two
  identifiers the constructor takes.
\<close>

theorem name_length_limit:
  "(length name \<le> 63 \<and> length schemaName \<le> 63 \<and> urlParses url \<longrightarrow>
      NewDatabase urlParses url poolSize name schemaName upsert
        = Inr \<lparr> HandleURL = url, HandlePoolSize = poolSize, HandleName = name,
                 HandleSchemaName = schemaName, HandleUpsert = upsert \<rparr>)
   \<and> (length name = 64 \<or> length schemaName = 64 \<longrightarrow>
      NewDatabase urlParses url poolSize name schemaName upsert = Inl ErrNameTooLong)
   \<and> (63 < length name \<or> 63 < length schemaName \<longrightarrow>
      NewDatabase urlParses url poolSize name schemaName upsert = Inl ErrNameTooLong)"
  by (simp add: NewDatabase_def MaxPostgresNameLength_def)

theorem name_length_limit_witness:
  "NewDatabase demoURLParses ''postgres://example.com/fakedb'' 1 (replicate 63 CHR ''x'') ''public'' False
     = Inr \<lparr> HandleURL = ''postgres://example.com/fakedb'', HandlePoolSize = 1,
              HandleName = replicate 63 CHR ''x'', HandleSchemaName = ''public'', HandleUpsert = False \<rparr>
   \<and> NewDatabase demoURLParses ''postgres://example.com/fakedb'' 1 (replicate 64 CHR ''x'') ''public'' False
     = Inl ErrNameTooLong
   \<and> NewDatabase demoURLParses ''postgres://example.com/fakedb'' 1 ''visor'' (replicate 64 CHR ''x'') False
     = Inl ErrNameTooLong"
proof -
  have u: "demoURLParses ''postgres://example.com/fakedb''"
    by (simp add: demoURLParses_def)
  have p: "length ''public'' \<le> 63"
    by simp
  from name_length_limit[of "replicate 63 CHR ''x''" "''public''" demoURLParses
      "''postgres://example.com/fakedb''" 1 False] u p
  have w1: "NewDatabase demoURLParses ''postgres://example.com/fakedb'' 1 (replicate 63 CHR ''x'') ''public'' False
     = Inr \<lparr> HandleURL = ''postgres://example.com/fakedb'', HandlePoolSize = 1,
              HandleName = replicate 63 CHR ''x'', HandleSchemaName = ''public'', HandleUpsert = False \<rparr>"
    by simp
  from name_length_limit[of "replicate 64 CHR ''x''" "''public''" demoURLParses
      "''postgres://example.com/fakedb''" 1 False]
  have w2: "NewDatabase demoURLParses ''postgres://example.com/fakedb'' 1 (replicate 64 CHR ''x'') ''public'' False
     = Inl ErrNameTooLong"
    by simp
  from name_length_limit[of "''visor''" "replicate 64 CHR ''x''" demoURLParses
      "''postgres://example.com/fakedb''" 1 False]
  have w3: "NewDatabase demoURLParses ''postgres://example.com/fakedb'' 1 ''visor'' (replicate 64 CHR ''x'') False
     = Inl ErrNameTooLong"
    by simp
  from w1 w2 w3 show ?thesis by blast
qed

subsection \<open>Schema versions\<close>

lemma map_of_insertedRow:
  "c \<in> set cols \<Longrightarrow>
   map_of (map (\<lambda>c. (SQLName c, v (SQLName c))) cols) (SQLName c) = Some (v (SQLName c))"
  by (induction cols) auto

lemma persistStatement_Some:
  assumes "emittedColumns (version d) m \<noteq> []"
  shows "persistStatement d m
    = Some \<lparr> InsertInto = insertedRow (version d) m,
             OnConflict = conflictColumns (emittedColumns (version d) m),
             DoUpdateSet = (if Upsert d then Some (updateColumns (emittedColumns (version d) m)) else None) \<rparr>"
  using assms by (simp add: persistStatement_def Let_def)

lemma persistStatement_cases:
  assumes "persistStatement d m = Some stmt"
  shows "emittedColumns (version d) m \<noteq> []"
    and "stmt = \<lparr> InsertInto = insertedRow (version d) m,
             OnConflict = conflictColumns (emittedColumns (version d) m),
             DoUpdateSet = (if Upsert d then Some (updateColumns (emittedColumns (version d) m)) else None) \<rparr>"
  using assms by (auto simp: persistStatement_def Let_def split: if_splits)

lemma insertedRow_columns:
  "map fst (insertedRow major m) = insertColumns major m"
  by (simp add: insertedRow_def insertColumns_def o_def)

lemma conflictColumns_subset:
  "set (conflictColumns cols) \<subseteq> SQLName ` set cols"
  by (auto simp: conflictColumns_def)

lemma updateColumns_subset:
  "set (updateColumns cols) \<subseteq> SQLName ` set cols"
  by (auto simp: updateColumns_def)

lemma statementColumns_persistStatement:
  assumes "persistStatement d m = Some stmt"
  shows "set (statementColumns stmt) = set (insertColumns (version d) m)"
proof -
  note st = persistStatement_cases(2)[OF assms]
  have ic: "set (insertColumns (version d) m) = SQLName ` set (emittedColumns (version d) m)"
    by (simp add: insertColumns_def)
  show ?thesis
  proof (cases "Upsert d")
    case True
    with st have "set (statementColumns stmt)
        = set (insertColumns (version d) m)
          \<union> set (conflictColumns (emittedColumns (version d) m))
          \<union> set (updateColumns (emittedColumns (version d) m))"
      by (simp add: statementColumns_def insertedRow_columns Un_assoc)
    with ic conflictColumns_subset[of "emittedColumns (version d) m"]
      updateColumns_subset[of "emittedColumns (version d) m"]
    show ?thesis by blast
  next
    case False
    with st have "set (statementColumns stmt)
        = set (insertColumns (version d) m)
          \<union> set (conflictColumns (emittedColumns (version d) m))"
      by (simp add: statementColumns_def insertedRow_columns)
    with ic conflictColumns_subset[of "emittedColumns (version d) m"]
    show ?thesis by blast
  qed
qed

lemma executeStatement_succeeds:
  assumes "set (statementColumns stmt) \<subseteq> set (TableColumns t)"
  shows "executeStatement t stmt
    = Inr (t\<lparr> TableRows :=
             insertRow (OnConflict stmt) (DoUpdateSet stmt) (InsertInto stmt) (TableRows t) \<rparr>)"
proof -
  from assms have "find (\<lambda>c. c \<notin> set (TableColumns t)) (statementColumns stmt) = None"
    by (auto simp: find_None_iff)
  then show ?thesis
    by (simp add: executeStatement_def)
qed

lemma executeStatement_fails:
  assumes "x \<in> set (statementColumns stmt)" and "x \<notin> set (TableColumns t)"
  shows "\<exists>c. executeStatement t stmt = Inl (ErrUndefinedColumn c)
           \<and> c \<in> set (statementColumns stmt) \<and> c \<notin> set (TableColumns t)"
proof -
  from assms have "find (\<lambda>c. c \<notin> set (TableColumns t)) (statementColumns stmt) \<noteq> None"
    by (auto simp: find_None_iff)
  then obtain c where c: "find (\<lambda>c. c \<notin> set (TableColumns t)) (statementColumns stmt) = Some c"
    by blast
  then have "c \<in> set (statementColumns stmt) \<and> c \<notin> set (TableColumns t)"
    by (auto simp: find_Some_iff)
  with c show ?thesis
    by (simp add: executeStatement_def)
qed

lemma PersistBatch_succeeds:
  assumes "set (insertColumns (version d) m) \<subseteq> set (TableColumns (db d))"
    and "emittedColumns (version d) m \<noteq> []"
  shows "PersistBatch d m
    = Inr (d\<lparr> db := (db d)\<lparr> TableRows :=
             insertRow (conflictColumns (emittedColumns (version d) m))
               (if Upsert d then Some (updateColumns (emittedColumns (version d) m)) else None)
               (insertedRow (version d) m) (TableRows (db d)) \<rparr> \<rparr>)"
proof -
  let ?stmt = "\<lparr> InsertInto = insertedRow (version d) m,
             OnConflict = conflictColumns (emittedColumns (version d) m),
             DoUpdateSet = (if Upsert d then Some (updateColumns (emittedColumns (version d) m)) else None) \<rparr>"
  note st = persistStatement_Some[OF assms(2)]
  from statementColumns_persistStatement[OF st] assms(1)
  have "set (statementColumns ?stmt) \<subseteq> set (TableColumns (db d))"
    by simp
  from executeStatement_succeeds[OF this] st show ?thesis
    by (simp add: PersistBatch_def)
qed

text \<open>
  C7. Persisting a versioned model at a schema version older than the introduction of a
  field leaves that field's column out of the statement: out of the column list and
  the row of the insert, out of the conflict columns, and out of the update columns of
  an upsert. Persisting at the version of its introduction or later names the column,
  with the field's value, in the insert, and in the conflict columns when the field is
  part of the primary key, or in the update columns of an upsert when it is not. The
  columns of the three clauses are exactly the fields of the model that exist at the
  active version, split by the primary key.

  The database refuses a statement that names a column the table lacks, in any clause.
  The persist succeeds whenever the table has the columns of the fields of the active
  version, whether or not it has the later ones; into an empty table it puts the one
  row of the columns of that version.
\<close>

theorem schema_gating:
  assumes col: "c \<in> set (Columns m)" and names: "distinct (map SQLName (Columns m))"
  shows "(version d < Introduced c \<longrightarrow>
            SQLName c \<notin> set (insertColumns (version d) m)
            \<and> map_of (insertedRow (version d) m) (SQLName c) = None)
       \<and> (Introduced c \<le> version d \<and> \<not> Ignored c \<longrightarrow>
            SQLName c \<in> set (insertColumns (version d) m)
            \<and> map_of (insertedRow (version d) m) (SQLName c) = Some (FieldValue m (SQLName c)))
       \<and> (set (insertColumns (version d) m) \<subseteq> set (TableColumns (db d)) \<longrightarrow>
            (\<exists>d'. PersistBatch d m = Inr d'))
       \<and> (set (insertColumns (version d) m) \<subseteq> set (TableColumns (db d))
            \<and> emittedColumns (version d) m \<noteq> [] \<and> TableRows (db d) = [] \<longrightarrow>
            (\<exists>d'. PersistBatch d m = Inr d' \<and> TableRows (db d') = [insertedRow (version d) m]))
       \<and> (version d < Introduced c \<and> persistStatement d m = Some stmt \<longrightarrow>
            SQLName c \<notin> set (statementColumns stmt)
            \<and> SQLName c \<notin> fst ` set (InsertInto stmt)
            \<and> SQLName c \<notin> set (OnConflict stmt)
            \<and> (\<forall>upd. DoUpdateSet stmt = Some upd \<longrightarrow> SQLName c \<notin> set upd))
       \<and> (Introduced c \<le> version d \<and> \<not> Ignored c \<longrightarrow>
            (\<exists>found. persistStatement d m = Some found
               \<and> map_of (InsertInto found) (SQLName c) = Some (FieldValue m (SQLName c))
               \<and> (PK c \<longrightarrow> SQLName c \<in> set (OnConflict found))
               \<and> (\<not> PK c \<and> Upsert d \<longrightarrow>
                    (\<exists>upd. DoUpdateSet found = Some upd \<and> SQLName c \<in> set upd))))
       \<and> (persistStatement d m = Some stmt \<longrightarrow>
            map fst (InsertInto stmt) = insertColumns (version d) m
            \<and> set (OnConflict stmt)
                = SQLName ` {f \<in> set (Columns m). PK f \<and> \<not> Ignored f \<and> Introduced f \<le> version d}
            \<and> DoUpdateSet stmt \<noteq> None = Upsert d
            \<and> (\<forall>upd. DoUpdateSet stmt = Some upd \<longrightarrow>
                 set upd = SQLName ` {f \<in> set (Columns m). \<not> PK f \<and> \<not> Ignored f \<and> Introduced f \<le> version d}))
       \<and> (persistStatement d m = Some stmt \<and> x \<in> set (statementColumns stmt)
            \<and> x \<notin> set (TableColumns (db d)) \<longrightarrow>
            (\<exists>missing. PersistBatch d m = Inl (ErrUndefinedColumn missing)
               \<and> missing \<in> set (statementColumns stmt) \<and> missing \<notin> set (TableColumns (db d))))
       \<and> (persistStatement d m = None \<longrightarrow> PersistBatch d m = Inr d)"
proof -
  let ?cols = "emittedColumns (version d) m"
  from names have inj: "inj_on SQLName (set (Columns m))"
    by (simp add: distinct_map)
  have fs: "map fst (insertedRow (version d) m) = insertColumns (version d) m"
    by (rule insertedRow_columns)
  have out: "SQLName c \<notin> set (insertColumns (version d) m)" if "version d < Introduced c"
  proof
    assume "SQLName c \<in> set (insertColumns (version d) m)"
    then obtain c' where c': "c' \<in> set (Columns m)" "Introduced c' \<le> version d" "SQLName c' = SQLName c"
      by (auto simp: insertColumns_def emittedColumns_def)
    with inj col have "c' = c" by (auto dest: inj_onD)
    with c'(2) that show False by simp
  qed
  have p1: "SQLName c \<notin> set (insertColumns (version d) m)
            \<and> map_of (insertedRow (version d) m) (SQLName c) = None" if "version d < Introduced c"
  proof -
    from out[OF that] fs have "SQLName c \<notin> fst ` set (insertedRow (version d) m)"
      by (metis set_map)
    with out[OF that] show ?thesis by (simp add: map_of_eq_None_iff)
  qed
  have e: "c \<in> set ?cols" if "Introduced c \<le> version d \<and> \<not> Ignored c"
    using that col by (simp add: emittedColumns_def)
  have p2: "SQLName c \<in> set (insertColumns (version d) m)
            \<and> map_of (insertedRow (version d) m) (SQLName c) = Some (FieldValue m (SQLName c))"
    if h: "Introduced c \<le> version d \<and> \<not> Ignored c"
  proof -
    from e[OF h] have "SQLName c \<in> set (insertColumns (version d) m)"
      by (simp add: insertColumns_def)
    moreover from map_of_insertedRow[OF e[OF h], of "FieldValue m"]
    have "map_of (insertedRow (version d) m) (SQLName c) = Some (FieldValue m (SQLName c))"
      by (simp add: insertedRow_def)
    ultimately show ?thesis by simp
  qed
  have p9: "PersistBatch d m = Inr d" if "persistStatement d m = None"
    using that by (simp add: PersistBatch_def)
  have p3: "\<exists>d'. PersistBatch d m = Inr d'"
    if s: "set (insertColumns (version d) m) \<subseteq> set (TableColumns (db d))"
  proof (cases "?cols = []")
    case True
    then have "persistStatement d m = None" by (simp add: persistStatement_def)
    from p9[OF this] show ?thesis by blast
  next
    case False
    from PersistBatch_succeeds[OF s False] show ?thesis by blast
  qed
  have p4: "\<exists>d'. PersistBatch d m = Inr d' \<and> TableRows (db d') = [insertedRow (version d) m]"
    if "set (insertColumns (version d) m) \<subseteq> set (TableColumns (db d))
            \<and> emittedColumns (version d) m \<noteq> [] \<and> TableRows (db d) = []"
  proof -
    from that PersistBatch_succeeds[of d m] show ?thesis by simp
  qed
  have p5: "SQLName c \<notin> set (statementColumns stmt)
            \<and> SQLName c \<notin> fst ` set (InsertInto stmt)
            \<and> SQLName c \<notin> set (OnConflict stmt)
            \<and> (\<forall>upd. DoUpdateSet stmt = Some upd \<longrightarrow> SQLName c \<notin> set upd)"
    if h: "version d < Introduced c \<and> persistStatement d m = Some stmt"
  proof -
    from h have st: "persistStatement d m = Some stmt" by simp
    from out h statementColumns_persistStatement[OF st]
    have no: "SQLName c \<notin> set (statementColumns stmt)" by simp
    then show ?thesis
      by (auto simp: statementColumns_def)
  qed
  have p6: "\<exists>found. persistStatement d m = Some found
               \<and> map_of (InsertInto found) (SQLName c) = Some (FieldValue m (SQLName c))
               \<and> (PK c \<longrightarrow> SQLName c \<in> set (OnConflict found))
               \<and> (\<not> PK c \<and> Upsert d \<longrightarrow>
                    (\<exists>upd. DoUpdateSet found = Some upd \<and> SQLName c \<in> set upd))"
    if h: "Introduced c \<le> version d \<and> \<not> Ignored c"
  proof -
    from e[OF h] have ne: "?cols \<noteq> []" by auto
    from e[OF h] h have k: "PK c \<Longrightarrow> SQLName c \<in> set (conflictColumns ?cols)"
      by (auto simp: conflictColumns_def)
    from e[OF h] h have u: "\<not> PK c \<Longrightarrow> SQLName c \<in> set (updateColumns ?cols)"
      by (auto simp: updateColumns_def)
    from persistStatement_Some[OF ne] p2[OF h] k u show ?thesis
      by simp
  qed
  have p7: "map fst (InsertInto stmt) = insertColumns (version d) m
            \<and> set (OnConflict stmt)
                = SQLName ` {f \<in> set (Columns m). PK f \<and> \<not> Ignored f \<and> Introduced f \<le> version d}
            \<and> DoUpdateSet stmt \<noteq> None = Upsert d
            \<and> (\<forall>upd. DoUpdateSet stmt = Some upd \<longrightarrow>
                 set upd = SQLName ` {f \<in> set (Columns m). \<not> PK f \<and> \<not> Ignored f \<and> Introduced f \<le> version d})"
    if st: "persistStatement d m = Some stmt"
  proof -
    note eq = persistStatement_cases(2)[OF st]
    have k: "set (conflictColumns ?cols)
        = SQLName ` {f \<in> set (Columns m). PK f \<and> \<not> Ignored f \<and> Introduced f \<le> version d}"
      by (auto simp: conflictColumns_def emittedColumns_def)
    have u: "set (updateColumns ?cols)
        = SQLName ` {f \<in> set (Columns m). \<not> PK f \<and> \<not> Ignored f \<and> Introduced f \<le> version d}"
      by (auto simp: updateColumns_def emittedColumns_def)
    from eq fs k u show ?thesis by simp
  qed
  have p8: "\<exists>missing. PersistBatch d m = Inl (ErrUndefinedColumn missing)
               \<and> missing \<in> set (statementColumns stmt) \<and> missing \<notin> set (TableColumns (db d))"
    if h: "persistStatement d m = Some stmt \<and> x \<in> set (statementColumns stmt)
            \<and> x \<notin> set (TableColumns (db d))"
  proof -
    from h executeStatement_fails[of x stmt "db d"] obtain missing where
      "executeStatement (db d) stmt = Inl (ErrUndefinedColumn missing)"
      "missing \<in> set (statementColumns stmt)" "missing \<notin> set (TableColumns (db d))"
      by blast
    with h show ?thesis by (simp add: PersistBatch_def)
  qed
  from p1 p2 p3 p4 p5 p6 p7 p8 p9 show ?thesis by blast
qed

theorem schema_gating_witness:
  "persistStatement (versionedDatabase False 2) (VersionedModelLatest 42 ''blocka'' ''msg1'')
     = Some \<lparr> InsertInto = [(''height'', SqlInt 42), (''block'', SqlText ''blocka'')],
              OnConflict = [''height''], DoUpdateSet = None \<rparr>
   \<and> persistStatement (versionedDatabase True 2) (VersionedModelLatest 42 ''blocka'' ''msg1'')
     = Some \<lparr> InsertInto = [(''height'', SqlInt 42), (''block'', SqlText ''blocka'')],
              OnConflict = [''height''], DoUpdateSet = Some [''block''] \<rparr>
   \<and> persistStatement (versionedDatabase True 3) (VersionedModelLatest 42 ''blocka'' ''msg1'')
     = Some \<lparr> InsertInto = [(''height'', SqlInt 42), (''block'', SqlText ''blocka''),
                             (''message'', SqlText ''msg1'')],
              OnConflict = [''height''], DoUpdateSet = Some [''block'', ''message''] \<rparr>
   \<and> ''message'' \<notin> set (statementColumns
        \<lparr> InsertInto = [(''height'', SqlInt 42), (''block'', SqlText ''blocka'')],
          OnConflict = [''height''], DoUpdateSet = Some [''block''] \<rparr>)
   \<and> insertColumns 2 (VersionedModelLatest 42 ''blocka'' ''msg1'') = [''height'', ''block'']
   \<and> insertColumns 3 (VersionedModelLatest 42 ''blocka'' ''msg1'') = [''height'', ''block'', ''message'']
   \<and> PersistBatch (versionedDatabase False 2) (VersionedModelLatest 42 ''blocka'' ''msg1'')
       = Inr \<lparr> Upsert = False, version = 2,
               db = \<lparr> TableColumns = [''height'', ''block''],
                      TableRows = [[(''height'', SqlInt 42), (''block'', SqlText ''blocka'')]] \<rparr> \<rparr>
   \<and> PersistBatch (versionedDatabase True 2) (VersionedModelLatest 42 ''blocka'' ''msg1'')
       = Inr \<lparr> Upsert = True, version = 2,
               db = \<lparr> TableColumns = [''height'', ''block''],
                      TableRows = [[(''height'', SqlInt 42), (''block'', SqlText ''blocka'')]] \<rparr> \<rparr>
   \<and> PersistBatch \<lparr> Upsert = True, version = 2,
               db = \<lparr> TableColumns = [''height'', ''block''],
                      TableRows = [[(''height'', SqlInt 42), (''block'', SqlText ''blocka'')]] \<rparr> \<rparr>
         (VersionedModelLatest 42 ''blockb'' ''msg1'')
       = Inr \<lparr> Upsert = True, version = 2,
               db = \<lparr> TableColumns = [''height'', ''block''],
                      TableRows = [[(''height'', SqlInt 42), (''block'', SqlText ''blockb'')]] \<rparr> \<rparr>
   \<and> TableRows (db (projr (PersistBatch (projr (PersistBatch (versionedDatabase True 3)
         (VersionedModelLatest 42 ''blocka'' ''msg1''))) (VersionedModelLatest 42 ''blockb'' ''msg1''))))
       = [[(''height'', SqlInt 42), (''block'', SqlText ''blockb''), (''message'', SqlText ''msg1'')]]
   \<and> PersistBatch \<lparr> Upsert = True, version = 3, db = db (versionedDatabase True 2) \<rparr>
         (VersionedModelLatest 42 ''blocka'' ''msg1'')
       = Inl (ErrUndefinedColumn ''message'')
   \<and> PersistBatch \<lparr> Upsert = False, version = 1, db = \<lparr> TableColumns = [], TableRows = [] \<rparr> \<rparr>
         (VersionedModelLatest 42 ''blocka'' ''msg1'')
       = Inr \<lparr> Upsert = False, version = 1, db = \<lparr> TableColumns = [], TableRows = [] \<rparr> \<rparr>"
proof -
  let ?m = "VersionedModelLatest 42 ''blocka'' ''msg1''"
  let ?m' = "VersionedModelLatest 42 ''blockb'' ''msg1''"
  let ?rowa = "[(''height'', SqlInt 42), (''block'', SqlText ''blocka'')]"
  let ?plain = "\<lparr> InsertInto = ?rowa, OnConflict = [''height''], DoUpdateSet = None \<rparr>"
  let ?ups2 = "\<lparr> InsertInto = ?rowa, OnConflict = [''height''], DoUpdateSet = Some [''block''] \<rparr>"
  let ?ups3 = "\<lparr> InsertInto = [(''height'', SqlInt 42), (''block'', SqlText ''blocka''),
                             (''message'', SqlText ''msg1'')],
              OnConflict = [''height''], DoUpdateSet = Some [''block'', ''message''] \<rparr>"
  let ?short = "\<lparr> Upsert = True, version = 3, db = db (versionedDatabase True 2) \<rparr>"
  let ?none = "\<lparr> Upsert = False, version = 1, db = \<lparr> TableColumns = [], TableRows = [] \<rparr> \<rparr>"
  have col: "messageColumn \<in> set (Columns ?m)"
    by (simp add: VersionedModelLatest_def)
  have names: "distinct (map SQLName (Columns ?m))"
    by (simp add: VersionedModelLatest_def messageColumn_def)
  have n: "SQLName messageColumn = ''message''" "Introduced messageColumn = 3" "\<not> Ignored messageColumn"
    by (simp_all add: messageColumn_def)
  have v: "version (versionedDatabase u major) = major" for u major
    by (simp add: versionedDatabase_def)
  have w1: "persistStatement (versionedDatabase False 2) ?m = Some ?plain"
    and w2: "persistStatement (versionedDatabase True 2) ?m = Some ?ups2"
    and w3: "persistStatement (versionedDatabase True 3) ?m = Some ?ups3"
    and s3: "persistStatement ?short ?m = Some ?ups3"
    and s0: "persistStatement ?none ?m = None"
    by code_simp+
  note old = schema_gating[OF col names, of "versionedDatabase True 2" ?ups2,
      THEN conjunct2, THEN conjunct2, THEN conjunct2, THEN conjunct2, THEN conjunct1]
  from old w2 n v have w4: "''message'' \<notin> set (statementColumns ?ups2)"
    by simp
  have w5: "insertColumns 2 ?m = [''height'', ''block'']"
    and w6: "insertColumns 3 ?m = [''height'', ''block'', ''message'']"
    and w7: "PersistBatch (versionedDatabase False 2) ?m
       = Inr \<lparr> Upsert = False, version = 2,
               db = \<lparr> TableColumns = [''height'', ''block''], TableRows = [?rowa] \<rparr> \<rparr>"
    and w8: "PersistBatch (versionedDatabase True 2) ?m
       = Inr \<lparr> Upsert = True, version = 2,
               db = \<lparr> TableColumns = [''height'', ''block''], TableRows = [?rowa] \<rparr> \<rparr>"
    and w9: "PersistBatch \<lparr> Upsert = True, version = 2,
               db = \<lparr> TableColumns = [''height'', ''block''], TableRows = [?rowa] \<rparr> \<rparr> ?m'
       = Inr \<lparr> Upsert = True, version = 2,
               db = \<lparr> TableColumns = [''height'', ''block''],
                      TableRows = [[(''height'', SqlInt 42), (''block'', SqlText ''blockb'')]] \<rparr> \<rparr>"
    and w10: "TableRows (db (projr (PersistBatch (projr (PersistBatch (versionedDatabase True 3) ?m)) ?m')))
       = [[(''height'', SqlInt 42), (''block'', SqlText ''blockb''), (''message'', SqlText ''msg1'')]]"
    by code_simp+
  have inS: "''message'' \<in> set (statementColumns ?ups3)"
    by (simp add: statementColumns_def)
  have notT: "''message'' \<notin> set (TableColumns (db ?short))"
    by (simp add: versionedDatabase_def)
  note short = schema_gating[OF col names, of ?short ?ups3 "''message''",
      THEN conjunct2, THEN conjunct2, THEN conjunct2, THEN conjunct2, THEN conjunct2,
      THEN conjunct2, THEN conjunct2, THEN conjunct1]
  from short s3 inS notT obtain missing where
    miss: "PersistBatch ?short ?m = Inl (ErrUndefinedColumn missing)"
      "missing \<in> set (statementColumns ?ups3)" "missing \<notin> set (TableColumns (db ?short))"
    by blast
  from miss(2,3) have "missing = ''message''"
    by (auto simp: statementColumns_def versionedDatabase_def)
  with miss(1) have w11: "PersistBatch ?short ?m = Inl (ErrUndefinedColumn ''message'')"
    by simp
  note none = schema_gating[OF col names, of ?none,
      THEN conjunct2, THEN conjunct2, THEN conjunct2, THEN conjunct2, THEN conjunct2,
      THEN conjunct2, THEN conjunct2, THEN conjunct2, rule_format, OF s0]
  from w1 w2 w3 w4 w5 w6 w7 w8 w9 w10 w11 none show ?thesis by blast
qed

subsection \<open>Persisting twice\<close>

lemma insertRow_fresh:
  "\<forall>r\<in>set rows. rowKey key r \<noteq> rowKey key new \<Longrightarrow> insertRow key upd new rows = rows @ [new]"
  by (induction rows) auto

lemma insertRow_again:
  "\<forall>r\<in>set rows. rowKey key r \<noteq> rowKey key new \<Longrightarrow> rowKey key new' = rowKey key new \<Longrightarrow>
   insertRow key upd new' (rows @ [new])
     = rows @ [case upd of None \<Rightarrow> new | Some cols \<Rightarrow> mergeRow cols new' new]"
  by (induction rows) (auto split: option.splits)

lemma rowKey_same:
  assumes "\<forall>c\<in>set cols. PK c \<longrightarrow> v' (SQLName c) = v (SQLName c)"
  shows "rowKey (conflictColumns cols) (map (\<lambda>c. (SQLName c, v' (SQLName c))) cols)
       = rowKey (conflictColumns cols) (map (\<lambda>c. (SQLName c, v (SQLName c))) cols)"
proof -
  have "map_of (map (\<lambda>c. (SQLName c, v' (SQLName c))) cols) k
      = map_of (map (\<lambda>c. (SQLName c, v (SQLName c))) cols) k"
    if "k \<in> set (conflictColumns cols)" for k
  proof -
    from that obtain c where c: "c \<in> set cols" "PK c" "k = SQLName c"
      by (auto simp: conflictColumns_def)
    with assms have "v' k = v k" by simp
    with c(1,3) show ?thesis by (simp add: map_of_insertedRow)
  qed
  then show ?thesis by (simp add: rowKey_def)
qed

lemma mergeRow_same:
  assumes ign: "\<forall>c\<in>set cols. \<not> Ignored c"
    and key: "\<forall>c\<in>set cols. PK c \<longrightarrow> v' (SQLName c) = v (SQLName c)"
  shows "mergeRow (updateColumns cols) (map (\<lambda>c. (SQLName c, v' (SQLName c))) cols)
           (map (\<lambda>c. (SQLName c, v (SQLName c))) cols)
       = map (\<lambda>c. (SQLName c, v' (SQLName c))) cols"
proof -
  let ?new = "map (\<lambda>c. (SQLName c, v' (SQLName c))) cols"
  have "(if SQLName c \<in> set (updateColumns cols)
         then (case map_of ?new (SQLName c) of Some x \<Rightarrow> x | None \<Rightarrow> v (SQLName c))
         else v (SQLName c)) = v' (SQLName c)" if c: "c \<in> set cols" for c
  proof (cases "SQLName c \<in> set (updateColumns cols)")
    case True
    with map_of_insertedRow[OF c, of v'] show ?thesis by simp
  next
    case False
    with c ign have "PK c" by (auto simp: updateColumns_def)
    with key c False show ?thesis by simp
  qed
  then show ?thesis by (simp add: mergeRow_def o_def)
qed

text \<open>
  C8. Persist a model into a table that has no row with its key, then persist a model
  of the same type with the same key again. Both persists succeed and the table has
  gained exactly one row. With upsert disabled the second persist changes nothing: the
  row has the values of the first model. With upsert enabled the row has the values of
  the second model.
\<close>

theorem persist_twice_one_row:
  assumes same: "Columns m' = Columns m"
    and key: "\<forall>c\<in>set (Columns m). PK c \<longrightarrow> FieldValue m' (SQLName c) = FieldValue m (SQLName c)"
    and cols: "set (insertColumns (version d) m) \<subseteq> set (TableColumns (db d))"
    and some: "emittedColumns (version d) m \<noteq> []"
    and fresh: "\<forall>r\<in>set (TableRows (db d)).
        rowKey (conflictColumns (emittedColumns (version d) m)) r
          \<noteq> rowKey (conflictColumns (emittedColumns (version d) m)) (insertedRow (version d) m)"
  shows "\<exists>d1 d2. PersistBatch d m = Inr d1 \<and> PersistBatch d1 m' = Inr d2
          \<and> TableRows (db d1) = TableRows (db d) @ [insertedRow (version d) m]
          \<and> TableRows (db d2) = TableRows (db d) @ [insertedRow (version d) (if Upsert d then m' else m)]
          \<and> (\<not> Upsert d \<longrightarrow> d2 = d1)"
proof -
  let ?cols = "emittedColumns (version d) m"
  let ?key = "conflictColumns ?cols"
  let ?upd = "if Upsert d then Some (updateColumns ?cols) else None"
  let ?new = "insertedRow (version d) m"
  let ?new' = "insertedRow (version d) m'"
  let ?rows = "TableRows (db d)"
  define d1 where "d1 = d\<lparr> db := (db d)\<lparr> TableRows := ?rows @ [?new] \<rparr> \<rparr>"
  have e: "emittedColumns (version d) m' = ?cols"
    using same by (simp add: emittedColumns_def)
  have ic: "insertColumns (version d) m' = insertColumns (version d) m"
    using e by (simp add: insertColumns_def)
  have ign: "\<forall>c\<in>set ?cols. \<not> Ignored c"
    by (simp add: emittedColumns_def)
  have key': "\<forall>c\<in>set ?cols. PK c \<longrightarrow> FieldValue m' (SQLName c) = FieldValue m (SQLName c)"
    using key by (simp add: emittedColumns_def)
  have k: "rowKey ?key ?new' = rowKey ?key ?new"
    using rowKey_same[OF key'] e by (simp add: insertedRow_def)
  have mg: "mergeRow (updateColumns ?cols) ?new' ?new = ?new'"
    using mergeRow_same[OF ign key'] e by (simp add: insertedRow_def)
  have first: "PersistBatch d m = Inr d1"
    using PersistBatch_succeeds[OF cols some] insertRow_fresh[OF fresh] by (simp add: d1_def)
  have d1v: "version d1 = version d" "Upsert d1 = Upsert d" "TableColumns (db d1) = TableColumns (db d)"
    "TableRows (db d1) = ?rows @ [?new]"
    by (simp_all add: d1_def)
  have cols1: "set (insertColumns (version d1) m') \<subseteq> set (TableColumns (db d1))"
    using cols ic d1v by simp
  have some1: "emittedColumns (version d1) m' \<noteq> []"
    using some e d1v by simp
  have again: "insertRow ?key ?upd ?new' (?rows @ [?new])
      = ?rows @ [insertedRow (version d) (if Upsert d then m' else m)]"
  proof (cases "Upsert d")
    case True
    with insertRow_again[OF fresh k, of "Some (updateColumns ?cols)"] mg show ?thesis by simp
  next
    case False
    with insertRow_again[OF fresh k, of None] show ?thesis by simp
  qed
  define d2 where "d2 = d1\<lparr> db := (db d1)\<lparr> TableRows :=
      ?rows @ [insertedRow (version d) (if Upsert d then m' else m)] \<rparr> \<rparr>"
  have second: "PersistBatch d1 m' = Inr d2"
  proof -
    note PersistBatch_succeeds[OF cols1 some1]
    then show ?thesis unfolding d2_def d1v(1,2,4) e again .
  qed
  have r2: "TableRows (db d2) = ?rows @ [insertedRow (version d) (if Upsert d then m' else m)]"
    by (simp add: d2_def)
  have noop: "d2 = d1" if "\<not> Upsert d"
    using that by (simp add: d2_def d1_def)
  from first second d1v(4) r2 noop show ?thesis by blast
qed

theorem persist_twice_one_row_witness:
  "TableRows (db (projr (PersistBatch (projr (PersistBatch (minerDatabase False)
       (MinerInfo 1 ''minerID'' ''stateroot'' ''owner''))) (MinerInfo 1 ''minerID'' ''stateroot'' ''UPSERT''))))
     = [insertedRow 1 (MinerInfo 1 ''minerID'' ''stateroot'' ''owner'')]
   \<and> TableRows (db (projr (PersistBatch (projr (PersistBatch (minerDatabase True)
       (MinerInfo 1 ''minerID'' ''stateroot'' ''owner''))) (MinerInfo 1 ''minerID'' ''stateroot'' ''UPSERT''))))
     = [insertedRow 1 (MinerInfo 1 ''minerID'' ''stateroot'' ''UPSERT'')]
   \<and> map_of (insertedRow 1 (MinerInfo 1 ''minerID'' ''stateroot'' ''UPSERT'')) ''owner_id'' = Some (SqlText ''UPSERT'')
   \<and> map_of (insertedRow 1 (MinerInfo 1 ''minerID'' ''stateroot'' ''owner'')) ''owner_id'' = Some (SqlText ''owner'')"
proof -
  let ?a = "MinerInfo 1 ''minerID'' ''stateroot'' ''owner''"
  let ?b = "MinerInfo 1 ''minerID'' ''stateroot'' ''UPSERT''"
  have same: "Columns ?b = Columns ?a"
    by (simp add: MinerInfo_def)
  have key: "\<forall>c\<in>set (Columns ?a). PK c \<longrightarrow> FieldValue ?b (SQLName c) = FieldValue ?a (SQLName c)"
    by (simp add: MinerInfo_def keyColumn_def plainColumn_def)
  have cols: "set (insertColumns (version (minerDatabase u)) ?a) \<subseteq> set (TableColumns (db (minerDatabase u)))" for u
    by (simp add: minerDatabase_def insertColumns_def emittedColumns_def MinerInfo_def keyColumn_def plainColumn_def)
  have some: "emittedColumns (version (minerDatabase u)) ?a \<noteq> []" for u
    by (simp add: minerDatabase_def emittedColumns_def MinerInfo_def keyColumn_def plainColumn_def)
  have fresh: "\<forall>r\<in>set (TableRows (db (minerDatabase u))).
        rowKey (conflictColumns (emittedColumns (version (minerDatabase u)) ?a)) r
          \<noteq> rowKey (conflictColumns (emittedColumns (version (minerDatabase u)) ?a))
               (insertedRow (version (minerDatabase u)) ?a)" for u
    by (simp add: minerDatabase_def)
  have v: "version (minerDatabase u) = 1" "Upsert (minerDatabase u) = u" "TableRows (db (minerDatabase u)) = []" for u
    by (simp_all add: minerDatabase_def)
  from persist_twice_one_row[OF same key cols some fresh, of False] v
  have w1: "TableRows (db (projr (PersistBatch (projr (PersistBatch (minerDatabase False) ?a)) ?b)))
     = [insertedRow 1 ?a]"
    by auto
  from persist_twice_one_row[OF same key cols some fresh, of True] v
  have w2: "TableRows (db (projr (PersistBatch (projr (PersistBatch (minerDatabase True) ?a)) ?b)))
     = [insertedRow 1 ?b]"
    by auto
  have w3: "map_of (insertedRow 1 ?b) ''owner_id'' = Some (SqlText ''UPSERT'')"
    and w4: "map_of (insertedRow 1 ?a) ''owner_id'' = Some (SqlText ''owner'')"
    by code_simp+
  from w1 w2 w3 w4 show ?thesis by blast
qed

end
